theory Spec2Isabelle
  imports Complex_Main "HOL-Library.Monad_Syntax"
begin

section \<open>Page ranges\<close>

text \<open>
  The three page-level handlers that take a page range (watermark, crop, page numbers)
  each compute a first and a last index from the 1-indexed settings. Page numbers are
  JavaScript numbers holding integers; they are modelled as \<open>int\<close>, a missing value
  (\<open>null\<close>) as \<open>None\<close>, and the number of pages \<open>pages.length\<close> as a \<open>nat\<close>.
\<close>

text \<open>The loop \<^verbatim>\<open>for (let i = startIdx; i <= endIdx; i++) body(i)\<close>, returning the
  values of \<open>i\<close> the body is run at, in order, appended to what was collected before.\<close>

function for_upto :: "int \<Rightarrow> int \<Rightarrow> int list \<Rightarrow> int list" where
  "for_upto i endIdx acc = (if i \<le> endIdx then for_upto (i + 1) endIdx (acc @ [i]) else acc)"
  by pat_completeness auto
termination
  by (relation "measure (\<lambda>(i, endIdx, acc). nat (endIdx + 1 - i))") auto

declare for_upto.simps [simp del]

subsection \<open>applyWatermark\<close>

text \<open>\<^verbatim>\<open>Math.max(0, (currentSettings.startPage ?? 1) - 1)\<close>\<close>

definition applyWatermark_startIdx :: "int option \<Rightarrow> int" where
  "applyWatermark_startIdx startPage =
     max 0 ((case startPage of None \<Rightarrow> 1 | Some s \<Rightarrow> s) - 1)"

text \<open>\<^verbatim>\<open>currentSettings.endPage ? Math.min(pages.length - 1, currentSettings.endPage - 1)
  : pages.length - 1\<close>: the condition is JavaScript truthiness, so both \<open>null\<close> and \<open>0\<close>
  take the second branch.\<close>

definition applyWatermark_endIdx :: "int option \<Rightarrow> nat \<Rightarrow> int" where
  "applyWatermark_endIdx endPage n =
     (case endPage of
        None \<Rightarrow> int n - 1
      | Some e \<Rightarrow> if e \<noteq> 0 then min (int n - 1) (e - 1) else int n - 1)"

text \<open>The set \<open>targetIndices\<close>, as the list of its members in insertion order.\<close>

definition targetIndices :: "int option \<Rightarrow> int option \<Rightarrow> nat \<Rightarrow> int list" where
  "targetIndices startPage endPage n =
     (let startIdx = applyWatermark_startIdx startPage;
          endIdx = applyWatermark_endIdx endPage n
      in if endIdx \<ge> startIdx then for_upto startIdx endIdx [] else [])"

text \<open>\<^verbatim>\<open>isPreview ? [pages[0]] : pages.filter((_, i) => targetIndices.has(i))\<close>,
  as the indices of the pages taken.\<close>

definition applyWatermark_pagesToProcess ::
  "int option \<Rightarrow> int option \<Rightarrow> nat \<Rightarrow> bool \<Rightarrow> nat list" where
  "applyWatermark_pagesToProcess startPage endPage n isPreview =
     (if isPreview then [0]
      else filter (\<lambda>i. int i \<in> set (targetIndices startPage endPage n)) [0..<n])"

subsection \<open>applyPageNumbers\<close>

definition applyPageNumbers_startIdx :: "int \<Rightarrow> int" where
  "applyPageNumbers_startIdx fromPage = max 0 (fromPage - 1)"

text \<open>Here the end index is exclusive: \<^verbatim>\<open>toPage ? Math.min(total, toPage) : total\<close>.\<close>

definition applyPageNumbers_endIdx :: "int option \<Rightarrow> nat \<Rightarrow> int" where
  "applyPageNumbers_endIdx toPage tot =
     (case toPage of
        None \<Rightarrow> int tot
      | Some e \<Rightarrow> if e \<noteq> 0 then min (int tot) e else int tot)"

text \<open>\<^verbatim>\<open>Array.from({ length: len }, (_, i) => startIdx + i)\<close>: a negative length
  gives the empty array.\<close>

definition array_from :: "int \<Rightarrow> (int \<Rightarrow> 'a) \<Rightarrow> 'a list" where
  "array_from len f = map (\<lambda>i. f (int i)) [0..<nat len]"

text \<open>\<open>pagesToProcess\<close>, followed by the loop's \<^verbatim>\<open>if (pageIdx >= total) continue\<close>.\<close>

definition applyPageNumbers_pagesToProcess :: "int \<Rightarrow> int option \<Rightarrow> nat \<Rightarrow> bool \<Rightarrow> int list" where
  "applyPageNumbers_pagesToProcess fromPage toPage tot isPreview =
     (let startIdx = applyPageNumbers_startIdx fromPage;
          endIdx = applyPageNumbers_endIdx toPage tot
      in if isPreview then [startIdx]
         else array_from (endIdx - startIdx) (\<lambda>i. startIdx + i))"

definition numbered_pages :: "int \<Rightarrow> int option \<Rightarrow> nat \<Rightarrow> bool \<Rightarrow> int list" where
  "numbered_pages fromPage toPage tot isPreview =
     filter (\<lambda>pageIdx. \<not> pageIdx \<ge> int tot)
       (applyPageNumbers_pagesToProcess fromPage toPage tot isPreview)"

subsection \<open>Crop download\<close>

definition crop_startIdx :: "int \<Rightarrow> int" where
  "crop_startIdx startPage = max 0 (startPage - 1)"

definition crop_endIdx :: "int option \<Rightarrow> nat \<Rightarrow> int" where
  "crop_endIdx endPage n =
     (case endPage of
        None \<Rightarrow> int n - 1
      | Some e \<Rightarrow> if e \<noteq> 0 then min (int n - 1) (e - 1) else int n - 1)"

definition crop_pages :: "int \<Rightarrow> int option \<Rightarrow> nat \<Rightarrow> int list" where
  "crop_pages startPage endPage n = for_upto (crop_startIdx startPage) (crop_endIdx endPage n) []"

section \<open>Rotation\<close>

text \<open>
  Angles are JavaScript numbers holding integers (the buttons pass \<open>90\<close> and \<open>-90\<close>);
  they are modelled as \<open>int\<close>. The operator \<^verbatim>\<open>%\<close> is the remainder of the division
  truncated toward zero, so its result has the sign of the dividend.
\<close>

definition js_rem :: "int \<Rightarrow> int \<Rightarrow> int" where
  "js_rem a b = sgn a * (\<bar>a\<bar> mod \<bar>b\<bar>)"

text \<open>\<^verbatim>\<open>setRotations(new Array(count).fill(0))\<close>\<close>

definition handleFileSelected :: "nat \<Rightarrow> int list" where
  "handleFileSelected count = replicate count 0"

definition handleRotateAll :: "int \<Rightarrow> int list \<Rightarrow> int list" where
  "handleRotateAll angle prev = map (\<lambda>r. js_rem (r + angle) 360) prev"

text \<open>The handler is bound to the buttons rendered by \<^verbatim>\<open>rotations.map((rotation, index) => ...)\<close>,
  so \<open>index\<close> is below the length; the model leaves the list as it is for any other index.\<close>

definition handleRotatePage :: "nat \<Rightarrow> int \<Rightarrow> int list \<Rightarrow> int list" where
  "handleRotatePage index angle prev =
     (if index < length prev then prev[index := js_rem (prev ! index + angle) 360] else prev)"

text \<open>A session of button presses after a file with \<open>count\<close> pages was selected.\<close>

datatype rotate_action = RotateAll int | RotatePage nat int

fun rotate_step :: "int list \<Rightarrow> rotate_action \<Rightarrow> int list" where
  "rotate_step rotations (RotateAll angle) = handleRotateAll angle rotations"
| "rotate_step rotations (RotatePage index angle) = handleRotatePage index angle rotations"

definition rotate_session :: "nat \<Rightarrow> rotate_action list \<Rightarrow> int list" where
  "rotate_session count actions = foldl rotate_step (handleFileSelected count) actions"

text \<open>The delta an action applies to page \<open>i\<close>.\<close>

fun delta_for :: "nat \<Rightarrow> rotate_action \<Rightarrow> int" where
  "delta_for i (RotateAll angle) = angle"
| "delta_for i (RotatePage index angle) = (if index = i then angle else 0)"

fun action_angle :: "rotate_action \<Rightarrow> int" where
  "action_angle (RotateAll angle) = angle"
| "action_angle (RotatePage index angle) = angle"

text \<open>
  \<open>handleSave\<close>, on the pages' rotation angles: \<^verbatim>\<open>if (rotation !== 0)
  page.setRotation(degrees(page.getRotation().angle + rotation))\<close>. The library's
  \<open>setRotation\<close> refuses an angle that is not a multiple of 90, and a page with no entry
  in \<open>rotations\<close> gets the angle \<open>NaN\<close>, refused likewise; the \<open>catch\<close> of \<open>handleSave\<close>
  then reports the failure (\<open>None\<close>).
\<close>

definition setRotation :: "int \<Rightarrow> int option" where
  "setRotation angle = (if angle mod 90 = 0 then Some angle else None)"

fun save_rotations :: "int list \<Rightarrow> int list \<Rightarrow> int list option" where
  "save_rotations rotations [] = Some []"
| "save_rotations [] (page # pages) = None"
| "save_rotations (rotation # rotations) (page # pages) =
     (case (if rotation \<noteq> 0 then setRotation (page + rotation) else Some page) of
        None \<Rightarrow> None
      | Some page' \<Rightarrow>
          (case save_rotations rotations pages of
             None \<Rightarrow> None
           | Some pages' \<Rightarrow> Some (page' # pages')))"

section \<open>Geometry\<close>

text \<open>
  Coordinates and sizes are JavaScript numbers; they are modelled as real numbers, so
  the rounding of floating-point arithmetic is not part of the model.
\<close>

record rect =
  box_x :: real
  box_y :: real
  box_width :: real
  box_height :: real

text \<open>The conversion of the crop box (percent of the page, origin top-left) to points
  (origin bottom-left) in the crop page's \<open>handleDownload\<close>: the arguments of
  \<^verbatim>\<open>page.setCropBox(cropX, pdfY, cropWidth, cropHeight)\<close>.\<close>

definition cropConversion :: "rect \<Rightarrow> real \<Rightarrow> real \<Rightarrow> rect" where
  "cropConversion cropBox width height =
     (let cropX = (box_x cropBox / 100) * width;
          cropY = (box_y cropBox / 100) * height;
          cropWidth = (box_width cropBox / 100) * width;
          cropHeight = (box_height cropBox / 100) * height;
          pdfY = height - cropY - cropHeight
      in \<lparr>box_x = cropX, box_y = pdfY, box_width = cropWidth, box_height = cropHeight\<rparr>)"

text \<open>Modelled from the spec: \<open>toUISpace\<close>, the conversion back from points to percent.
  The source has no such function; this is the inverse the specification names.\<close>

definition toUISpace :: "rect \<Rightarrow> real \<Rightarrow> real \<Rightarrow> rect" where
  "toUISpace docRect pageWidth pageHeight =
     \<lparr>box_x = (box_x docRect / pageWidth) * 100,
      box_y = ((pageHeight - box_y docRect - box_height docRect) / pageHeight) * 100,
      box_width = (box_width docRect / pageWidth) * 100,
      box_height = (box_height docRect / pageHeight) * 100\<rparr>"

section \<open>Placement\<close>

text \<open>The nine positions of the watermark page and the six of the page-number page,
  with the strings they are in the source.\<close>

datatype Position = TL | TC | TR | CL | CC | CR | BL | BC | BR

fun position_str :: "Position \<Rightarrow> string" where
  "position_str TL = ''tl''" | "position_str TC = ''tc''" | "position_str TR = ''tr''"
| "position_str CL = ''cl''" | "position_str CC = ''cc''" | "position_str CR = ''cr''"
| "position_str BL = ''bl''" | "position_str BC = ''bc''" | "position_str BR = ''br''"

datatype NumberPosition = Ntl | Ntc | Ntr | Nbl | Nbc | Nbr

fun number_position_str :: "NumberPosition \<Rightarrow> string" where
  "number_position_str Ntl = ''tl''" | "number_position_str Ntc = ''tc''"
| "number_position_str Ntr = ''tr''" | "number_position_str Nbl = ''bl''"
| "number_position_str Nbc = ''bc''" | "number_position_str Nbr = ''br''"

text \<open>\<^verbatim>\<open>s.includes(c)\<close> and \<^verbatim>\<open>s.startsWith(c)\<close> for a one-character \<open>c\<close>.\<close>

definition str_includes :: "string \<Rightarrow> char \<Rightarrow> bool" where
  "str_includes s c = (c \<in> set s)"

definition str_startsWith :: "string \<Rightarrow> char \<Rightarrow> bool" where
  "str_startsWith s c = (case s of [] \<Rightarrow> False | d # _ \<Rightarrow> d = c)"

text \<open>The fixed placement of a watermark of size \<open>w\<close> by \<open>h\<close>. The source has this block
  three times (text, placeholder, image), the same but for the names of \<open>w\<close> and \<open>h\<close>.\<close>

definition anchor_xy :: "Position \<Rightarrow> real \<Rightarrow> real \<Rightarrow> real \<Rightarrow> real \<Rightarrow> real \<times> real" where
  "anchor_xy position width height w h =
     (let x = (width - w) / 2;
          y = (height - h) / 2;
          margin = 20;
          x = (if str_includes (position_str position) CHR ''l'' then margin else x);
          x = (if str_includes (position_str position) CHR ''r'' then width - w - margin else x);
          y = (if str_includes (position_str position) CHR ''t'' then height - h - margin else y);
          y = (if str_includes (position_str position) CHR ''b'' then margin else y)
      in (x, y))"

text \<open>The placement of a page number of size \<open>textWidth\<close> by \<open>textHeight\<close>.\<close>

definition number_xy :: "NumberPosition \<Rightarrow> real \<Rightarrow> real \<Rightarrow> real \<Rightarrow> real \<Rightarrow> real \<Rightarrow> real \<times> real" where
  "number_xy position margin width height textWidth textHeight =
     (let y = (if str_startsWith (number_position_str position) CHR ''t''
               then height - margin - textHeight else margin);
          x = (if str_includes (number_position_str position) CHR ''l'' then margin
               else if str_includes (number_position_str position) CHR ''c''
               then (width - textWidth) / 2
               else width - margin - textWidth)
      in (x, y))"

text \<open>The tiling loops \<^verbatim>\<open>for (ix = 0; ix < 3; ix++) for (iy = 0; iy < 3; iy++)\<close>: the values of
  the body in the order it is run.\<close>

definition tile_loop :: "(real \<Rightarrow> real \<Rightarrow> 'a) \<Rightarrow> 'a list" where
  "tile_loop body = concat (map (\<lambda>ix. map (\<lambda>iy. body (real ix) (real iy)) [0..<3]) [0..<3])"

text \<open>The points the text watermark is drawn at: the arguments of \<open>drawTextAt\<close>.\<close>

definition text_placements ::
  "bool \<Rightarrow> Position \<Rightarrow> real \<Rightarrow> real \<Rightarrow> real \<Rightarrow> real \<Rightarrow> (real \<times> real) list" where
  "text_placements isTiled position width height textWidth textHeight =
     (if isTiled
      then tile_loop (\<lambda>ix iy.
             let cx = width * ((ix * 2 + 1) / 6);
                 cy = height * ((iy * 2 + 1) / 6)
             in (cx - textWidth / 2, cy - textHeight / 3))
      else [anchor_xy position width height textWidth textHeight])"

text \<open>The points the image, or in a preview its placeholder, is drawn at: the arguments
  of \<open>drawImageAt\<close> and \<open>drawPlaceholder\<close>.\<close>

definition image_placements ::
  "bool \<Rightarrow> Position \<Rightarrow> real \<Rightarrow> real \<Rightarrow> real \<Rightarrow> real \<Rightarrow> (real \<times> real) list" where
  "image_placements isTiled position width height imgW imgH =
     (if isTiled
      then tile_loop (\<lambda>ix iy.
             let cx = width * ((ix * 2 + 1) / 6);
                 cy = height * ((iy * 2 + 1) / 6)
             in (cx - imgW / 2, cy - imgH / 2))
      else [anchor_xy position width height imgW imgH])"

text \<open>The centres \<open>(cx, cy)\<close> themselves, in the order of the loops.\<close>

definition tile_centers :: "real \<Rightarrow> real \<Rightarrow> (real \<times> real) list" where
  "tile_centers width height =
     tile_loop (\<lambda>ix iy. (width * ((ix * 2 + 1) / 6), height * ((iy * 2 + 1) / 6)))"

section \<open>The document library and its pages\<close>

text \<open>
  The handlers work through an external PDF library. Its calls are inside \<open>try\<close> blocks
  and may throw; a call that throws is modelled as returning \<open>None\<close>, and the library
  is a parameter of every handler, so that each property holds however the library
  behaves. What a page is, is fixed: its boxes and its list of content streams.
\<close>

datatype color = Hex string | Rgb real real real

record image =
  img_width :: real
  img_height :: real

text \<open>The drawing calls with the options the handlers pass: \<open>drawText\<close> (text, x, y, size,
  colour, opacity, rotation), \<open>drawRectangle\<close> and \<open>drawImage\<close> (x, y, width, height,
  opacity, rotation). A text colour is carried as the hex string of the settings, and
  a string the library cannot take as a colour is one of the ways a drawing call
  throws. The options that are the same constants in every call are left out: the blend
  mode \<open>Normal\<close>, and the fill, border colour and border width of the placeholder
  rectangle.\<close>

datatype draw_op =
    DrawText string real real real color "real option" "real option"
  | DrawRectangle real real real real real real
  | DrawImage image real real real real real real

datatype stream = Original nat | Drawn "draw_op list"

text \<open>The \<open>Contents\<close> entry of a page: absent, a single stream, or an array of streams.\<close>

datatype contents = NoContents | PDFStream stream | PDFArray "stream list"

record page =
  MediaBox :: rect
  CropBox :: "rect option"
  contents :: contents

definition getSize :: "page \<Rightarrow> real \<times> real" where
  "getSize page = (box_width (MediaBox page), box_height (MediaBox page))"

record font =
  widthOfTextAtSize :: "string \<Rightarrow> real \<Rightarrow> real option"
  heightAtSize :: "real \<Rightarrow> real"

record 'f pdflib =
  load :: "'f \<Rightarrow> page list option"
  embedFont :: "string \<Rightarrow> font option"
  embedPng :: "'f \<Rightarrow> image option"
  embedJpg :: "'f \<Rightarrow> image option"
  draw :: "draw_op \<Rightarrow> page \<Rightarrow> page option"
  Contents_throws :: "page \<Rightarrow> bool"
  save :: "page list \<Rightarrow> 'f option"

text \<open>\<open>PDFArray.remove(index)\<close> and \<open>PDFArray.insert(index, object)\<close>.\<close>

definition array_remove :: "nat \<Rightarrow> 'a list \<Rightarrow> 'a list" where
  "array_remove index arr = take index arr @ drop (Suc index) arr"

definition array_insert :: "nat \<Rightarrow> 'a \<Rightarrow> 'a list \<Rightarrow> 'a list" where
  "array_insert index obj arr = take index arr @ [obj] @ drop index arr"

text \<open>A loop over pages of the document, given by their indices; the body mutates the
  page it is run on. A page that does not exist is \<open>undefined\<close>, and the first call on it
  throws.\<close>

fun for_pages :: "(nat \<Rightarrow> page \<Rightarrow> page option) \<Rightarrow> nat list \<Rightarrow> page list \<Rightarrow> page list option" where
  "for_pages body [] pages = Some pages"
| "for_pages body (i # rest) pages =
     (if i < length pages
      then do { page' \<leftarrow> body i (pages ! i); for_pages body rest (pages[i := page']) }
      else None)"

fun draw_all :: "'f pdflib \<Rightarrow> draw_op list \<Rightarrow> page \<Rightarrow> page option" where
  "draw_all lib [] page = Some page"
| "draw_all lib (d # ds) page = do { page' \<leftarrow> draw lib d page; draw_all lib ds page' }"

section \<open>applyWatermark\<close>

datatype WatermarkType = Text | Image

datatype Layer = Over | Under

text \<open>\<open>imageFile\<close> is the MIME type of the chosen file with its bytes.\<close>

record 'f WatermarkSettings =
  wtype :: WatermarkType
  wtext :: string
  textSize :: real
  textColor :: string
  opacity :: real
  rotation :: real
  position :: Position
  imageFile :: "(string \<times> 'f) option"
  imageScale :: real
  isTiled :: bool
  startPage :: "int option"
  endPage :: "int option"
  layer :: Layer

text \<open>The embedding of the image, with its retry in the other format; when both fail
  the error is logged and \<open>embeddedImage\<close> stays \<open>null\<close>.\<close>

definition embedImage :: "'f pdflib \<Rightarrow> string \<Rightarrow> 'f \<Rightarrow> image option" where
  "embedImage lib fileType imageBytes =
     (case (if fileType = ''image/png'' then embedPng lib imageBytes
            else embedJpg lib imageBytes) of
        Some img \<Rightarrow> Some img
      | None \<Rightarrow>
          (case (if fileType = ''image/png'' then embedJpg lib imageBytes
                 else embedPng lib imageBytes) of
             Some img \<Rightarrow> Some img
           | None \<Rightarrow> None))"

text \<open>The block "Prepare Image (skip if preview to avoid lag)".\<close>

definition prepareImage :: "'f pdflib \<Rightarrow> 'f WatermarkSettings \<Rightarrow> bool \<Rightarrow> image option" where
  "prepareImage lib currentSettings isPreview =
     (case imageFile currentSettings of
        Some (fileType, imageBytes) \<Rightarrow>
          if wtype currentSettings = Image \<and> \<not> isPreview
          then embedImage lib fileType imageBytes else None
      | None \<Rightarrow> None)"

text \<open>The block "HANDLE LAYERING 'UNDER'": its own \<open>try\<close> catches whatever the look-up of
  the page's \<open>Contents\<close> throws and leaves the page as it is.\<close>

definition layerUnder :: "'f pdflib \<Rightarrow> page \<Rightarrow> page" where
  "layerUnder lib page =
     (if Contents_throws lib page then page
      else case contents page of
        PDFArray arr \<Rightarrow>
          (let lastIdx = int (length arr) - 1
           in if lastIdx > 0
              then (let lastStream = arr ! nat lastIdx;
                        arr = array_remove (nat lastIdx) arr;
                        arr = array_insert 0 lastStream arr
                    in page\<lparr>contents := PDFArray arr\<rparr>)
              else page)
      | _ \<Rightarrow> page)"

text \<open>The body of the loop over \<open>pagesToProcess\<close>.\<close>

definition watermarkPage ::
  "'f pdflib \<Rightarrow> 'f WatermarkSettings \<Rightarrow> bool \<Rightarrow> font \<Rightarrow> image option \<Rightarrow> page \<Rightarrow> page option" where
  "watermarkPage lib currentSettings isPreview helveticaFont embeddedImage page =
     do {
       let (width, height) = getSize page;
       page \<leftarrow>
         (case wtype currentSettings of
            Text \<Rightarrow>
              do {
                textWidth \<leftarrow> widthOfTextAtSize helveticaFont (wtext currentSettings)
                               (textSize currentSettings);
                let textHeight = heightAtSize helveticaFont (textSize currentSettings);
                draw_all lib
                  (map (\<lambda>(x, y). DrawText (wtext currentSettings) x y (textSize currentSettings)
                                   (Hex (textColor currentSettings))
                                   (Some (opacity currentSettings))
                                   (Some (rotation currentSettings)))
                     (text_placements (isTiled currentSettings) (position currentSettings)
                        width height textWidth textHeight))
                  page
              }
          | Image \<Rightarrow>
              if isPreview
              then (let imgW = 200 * imageScale currentSettings;
                        imgH = 100 * imageScale currentSettings
                    in draw_all lib
                         (concat (map (\<lambda>(x, y).
                            [DrawRectangle x y imgW imgH (opacity currentSettings)
                               (rotation currentSettings),
                             DrawText ''IMAGE'' (x + imgW / 2 - 20) (y + imgH / 2 - 5) 12
                               (Rgb 0.5 0.5 0.5) None (Some (rotation currentSettings))])
                            (image_placements (isTiled currentSettings)
                               (position currentSettings) width height imgW imgH)))
                         page)
              else (case embeddedImage of
                      Some img \<Rightarrow>
                        (let imgW = img_width img * imageScale currentSettings;
                             imgH = img_height img * imageScale currentSettings
                         in draw_all lib
                              (map (\<lambda>(x, y). DrawImage img x y imgW imgH
                                               (opacity currentSettings)
                                               (rotation currentSettings))
                                 (image_placements (isTiled currentSettings)
                                    (position currentSettings) width height imgW imgH))
                              page)
                    | None \<Rightarrow> Some page));
       Some (if layer currentSettings = Under then layerUnder lib page else page)
     }"

text \<open>\<open>applyWatermark\<close>: the bytes of the saved document, or \<open>None\<close> for the \<open>null\<close> that
  the outer \<open>catch\<close> returns.\<close>

definition applyWatermark ::
  "'f pdflib \<Rightarrow> 'f \<Rightarrow> 'f WatermarkSettings \<Rightarrow> bool \<Rightarrow> 'f option" where
  "applyWatermark lib originalFile currentSettings isPreview =
     do {
       pages \<leftarrow> load lib originalFile;
       let pagesToProcess =
             applyWatermark_pagesToProcess (startPage currentSettings) (endPage currentSettings)
               (length pages) isPreview;
       helveticaFont \<leftarrow> embedFont lib ''Helvetica-Bold'';
       let embeddedImage = prepareImage lib currentSettings isPreview;
       pages \<leftarrow> for_pages
                  (\<lambda>i. watermarkPage lib currentSettings isPreview helveticaFont embeddedImage)
                  pagesToProcess pages;
       save lib pages
     }"

section \<open>applyPageNumbers\<close>

datatype Format = Fmt_n | Fmt_n_of_total | Fmt_Page_n | Fmt_Page_n_of_total

record PageNumberSettings =
  number_position :: NumberPosition
  format :: Format
  startFrom :: int
  fromPage :: int
  toPage :: "int option"
  fontSize :: real
  margin :: real
  color :: string

text \<open>The text of an integer in a template literal.\<close>

function show_nat :: "nat \<Rightarrow> string" where
  "show_nat n =
     (if n < 10 then [''0123456789'' ! n]
      else show_nat (n div 10) @ [''0123456789'' ! (n mod 10)])"
  by pat_completeness auto
termination
  by (relation "measure id") auto

declare show_nat.simps [simp del]

definition show_int :: "int \<Rightarrow> string" where
  "show_int i = (if i < 0 then CHR ''-'' # show_nat (nat (- i)) else show_nat (nat i))"

text \<open>The \<open>switch\<close> on the format.\<close>

definition number_text :: "Format \<Rightarrow> int \<Rightarrow> nat \<Rightarrow> string" where
  "number_text fmt numberVal tot =
     (case fmt of
        Fmt_n \<Rightarrow> show_int numberVal
      | Fmt_n_of_total \<Rightarrow> show_int numberVal @ '' of '' @ show_nat tot
      | Fmt_Page_n \<Rightarrow> ''Page '' @ show_int numberVal
      | Fmt_Page_n_of_total \<Rightarrow> ''Page '' @ show_int numberVal @ '' of '' @ show_nat tot)"

text \<open>The body of the loop over \<open>pagesToProcess\<close>, for a page that exists.\<close>

definition numberPage ::
  "'f pdflib \<Rightarrow> PageNumberSettings \<Rightarrow> font \<Rightarrow> nat \<Rightarrow> int \<Rightarrow> nat \<Rightarrow> page \<Rightarrow> page option" where
  "numberPage lib currentSettings helveticaFont tot startIdx pageIdx page =
     do {
       let (width, height) = getSize page;
       let numberVal = startFrom currentSettings + (int pageIdx - startIdx);
       let text = number_text (format currentSettings) numberVal tot;
       textWidth \<leftarrow> widthOfTextAtSize helveticaFont text (fontSize currentSettings);
       let textHeight = heightAtSize helveticaFont (fontSize currentSettings);
       let (x, y) = number_xy (number_position currentSettings) (margin currentSettings)
                      width height textWidth textHeight;
       draw lib (DrawText text x y (fontSize currentSettings) (Hex (color currentSettings))
                   None None) page
     }"

text \<open>\<open>applyPageNumbers\<close>; a preview saves a document of the single page \<open>startIdx\<close>,
  copied out of the numbered one.\<close>

definition applyPageNumbers ::
  "'f pdflib \<Rightarrow> 'f \<Rightarrow> PageNumberSettings \<Rightarrow> bool \<Rightarrow> 'f option" where
  "applyPageNumbers lib originalFile currentSettings isPreview =
     do {
       pages \<leftarrow> load lib originalFile;
       helveticaFont \<leftarrow> embedFont lib ''Helvetica'';
       let tot = length pages;
       let startIdx = applyPageNumbers_startIdx (fromPage currentSettings);
       pages \<leftarrow> for_pages (numberPage lib currentSettings helveticaFont tot startIdx)
                  (map nat (numbered_pages (fromPage currentSettings) (toPage currentSettings)
                              tot isPreview))
                  pages;
       if isPreview
       then (if startIdx < int (length pages) then save lib [pages ! nat startIdx] else None)
       else save lib pages
     }"

section \<open>The crop page's handleDownload\<close>

text \<open>\<open>setCropBox\<close> and \<open>setMediaBox\<close> with the converted box.\<close>

definition cropPage :: "rect \<Rightarrow> page \<Rightarrow> page" where
  "cropPage cropBox page =
     (let (width, height) = getSize page;
          box = cropConversion cropBox width height
      in page\<lparr>CropBox := Some box, MediaBox := box\<rparr>)"

text \<open>The downloaded bytes, or \<open>None\<close> when an error is reported instead.\<close>

definition handleDownload :: "'f pdflib \<Rightarrow> 'f option \<Rightarrow> int \<Rightarrow> int option \<Rightarrow> rect \<Rightarrow> 'f option" where
  "handleDownload lib file settings_startPage settings_endPage cropBox =
     (case file of
        None \<Rightarrow> None
      | Some f \<Rightarrow>
          do {
            pages \<leftarrow> load lib f;
            pages \<leftarrow> for_pages (\<lambda>i page. Some (cropPage cropBox page))
                       (map nat (crop_pages settings_startPage settings_endPage (length pages))) pages;
            save lib pages
          })"

section \<open>A reference library\<close>

text \<open>
  Modelled from the spec: the document library of the specification's external
  interfaces, which is not part of the repository. It is used to run the handlers on
  concrete documents: a file is what the library reads out of it, every call succeeds
  on a file of the right kind, and a drawing call appends to the stream that the page
  got with its first drawing call, itself appended to the page's \<open>Contents\<close>.
\<close>

datatype ref_file = NotAPdf | Pdf "page list" | Png image | Jpg image

definition ref_font :: font where
  "ref_font = \<lparr>widthOfTextAtSize = (\<lambda>t size. Some (real (length t) * size / 2)),
               heightAtSize = (\<lambda>size. size)\<rparr>"

definition append_draw :: "draw_op \<Rightarrow> stream list \<Rightarrow> stream list" where
  "append_draw d arr =
     (case rev arr of
        Drawn ds # before \<Rightarrow> rev before @ [Drawn (ds @ [d])]
      | _ \<Rightarrow> arr @ [Drawn [d]])"

definition ref_draw :: "draw_op \<Rightarrow> page \<Rightarrow> page option" where
  "ref_draw d page =
     Some (page\<lparr>contents :=
       (case contents page of
          NoContents \<Rightarrow> PDFArray [Drawn [d]]
        | PDFStream s \<Rightarrow> PDFArray [s, Drawn [d]]
        | PDFArray arr \<Rightarrow> PDFArray (append_draw d arr))\<rparr>)"

definition reflib :: "ref_file pdflib" where
  "reflib =
     \<lparr>load = (\<lambda>f. case f of Pdf pages \<Rightarrow> Some pages | _ \<Rightarrow> None),
      embedFont = (\<lambda>name. Some ref_font),
      embedPng = (\<lambda>f. case f of Png img \<Rightarrow> Some img | _ \<Rightarrow> None),
      embedJpg = (\<lambda>f. case f of Jpg img \<Rightarrow> Some img | _ \<Rightarrow> None),
      draw = ref_draw,
      Contents_throws = (\<lambda>page. False),
      save = (\<lambda>pages. Some (Pdf pages))\<rparr>"

text \<open>Documents for the examples: a page of a given size and contents, and the
  \<open>defaultSettings\<close> of the watermark page and of the page-number page.\<close>

definition example_page :: "real \<Rightarrow> real \<Rightarrow> contents \<Rightarrow> page" where
  "example_page w h c =
     \<lparr>MediaBox = \<lparr>box_x = 0, box_y = 0, box_width = w, box_height = h\<rparr>,
      CropBox = None, contents = c\<rparr>"

definition defaultSettings :: "ref_file WatermarkSettings" where
  "defaultSettings =
     \<lparr>wtype = Text, wtext = ''CONFIDENTIAL'', textSize = 48, textColor = ''#FF0000'',
      opacity = 0.5, rotation = - 45, position = CC, imageFile = None, imageScale = 0.5,
      isTiled = False, startPage = Some 1, endPage = None, layer = Over\<rparr>"

definition defaultNumberSettings :: PageNumberSettings where
  "defaultNumberSettings =
     \<lparr>number_position = Nbc, format = Fmt_n, startFrom = 1, fromPage = 1, toPage = None,
      fontSize = 12, margin = 20, color = ''#000000''\<rparr>"

section \<open>Properties of page ranges\<close>

lemma for_upto_eq: "for_upto i e acc = acc @ [i..e]"
proof (induction i e acc rule: for_upto.induct)
  case (1 i e acc)
  show ?case
  proof (cases "i \<le> e")
    case True
    then have "[i..e] = i # [i + 1..e]" by (simp add: upto_rec1)
    with True "1" show ?thesis by (subst for_upto.simps) simp
  next
    case False
    then show ?thesis by (subst for_upto.simps) simp
  qed
qed

lemma targetIndices_eq:
  "targetIndices sp ep n = [applyWatermark_startIdx sp .. applyWatermark_endIdx ep n]"
  by (simp add: targetIndices_def Let_def for_upto_eq)

lemma array_from_upto: "array_from len (\<lambda>i. s + i) = [s .. s + len - 1]"
proof -
  have "map (\<lambda>i. s + int i) [0..<k] = [s .. s + int k - 1]" for k
  proof (induction k)
    case 0
    show ?case by simp
  next
    case (Suc k)
    have "[s .. s + int (Suc k) - 1] = [s .. s + int k - 1] @ [s + int k]"
      using upto_rec2 [of s "s + int k"] by simp
    with Suc show ?case by simp
  qed
  from this [of "nat len"] show ?thesis
    by (cases "0 \<le> len") (simp_all add: array_from_def)
qed

lemma filter_upt_upto:
  "0 \<le> s \<Longrightarrow> e < int n \<Longrightarrow> map int (filter (\<lambda>i. int i \<in> set [s..e]) [0..<n]) = [s..e]"
proof (induction n arbitrary: e)
  case 0
  then show ?case by simp
next
  case (Suc n)
  show ?case
  proof (cases "e < int n")
    case True
    with Suc show ?thesis by simp
  next
    case False
    with Suc.prems have e: "e = int n" by simp
    have "filter (\<lambda>i. int i \<in> set [s..e]) [0..<n] =
          filter (\<lambda>i. int i \<in> set [s..int n - 1]) [0..<n]"
      by (rule filter_cong) (auto simp: e)
    then have "map int (filter (\<lambda>i. int i \<in> set [s..e]) [0..<n]) = [s..int n - 1]"
      using Suc.IH [of "int n - 1"] Suc.prems(1) by simp
    then show ?thesis
      using upto_rec2 [of s "int n"] by (auto simp: e)
  qed
qed

lemma applyWatermark_startIdx_nonneg: "0 \<le> applyWatermark_startIdx sp"
  by (simp add: applyWatermark_startIdx_def)

lemma applyWatermark_endIdx_less: "applyWatermark_endIdx ep n < int n"
  by (auto simp: applyWatermark_endIdx_def min_less_iff_disj split: option.splits)

lemma applyWatermark_pagesToProcess_eq:
  "map int (applyWatermark_pagesToProcess sp ep n False) =
     [applyWatermark_startIdx sp .. applyWatermark_endIdx ep n]"
  unfolding applyWatermark_pagesToProcess_def targetIndices_eq
  using filter_upt_upto [OF applyWatermark_startIdx_nonneg applyWatermark_endIdx_less]
  by simp

lemma applyPageNumbers_endIdx_le: "applyPageNumbers_endIdx tp tot \<le> int tot"
  by (simp add: applyPageNumbers_endIdx_def split: option.splits)

lemma numbered_pages_eq:
  "numbered_pages fp tp tot False =
     [applyPageNumbers_startIdx fp .. applyPageNumbers_endIdx tp tot - 1]"
proof -
  have "filter (\<lambda>pageIdx. \<not> pageIdx \<ge> int tot)
          [applyPageNumbers_startIdx fp .. applyPageNumbers_endIdx tp tot - 1] =
        [applyPageNumbers_startIdx fp .. applyPageNumbers_endIdx tp tot - 1]"
    using applyPageNumbers_endIdx_le [of tp tot] by (intro filter_True) auto
  then show ?thesis
    by (simp add: numbered_pages_def applyPageNumbers_pagesToProcess_def Let_def array_from_upto)
qed

lemma crop_pages_eq: "crop_pages sp ep n = [crop_startIdx sp .. crop_endIdx ep n]"
  by (simp add: crop_pages_def for_upto_eq)

lemma min_pred: "min (a::int) b - 1 = min (a - 1) (b - 1)"
  by simp

text \<open>
  C3, as amended. For a page count \<open>tot\<close> and a range from \<open>fp\<close> to \<open>tp\<close> (\<open>None\<close> for
  \<open>null\<close>), the watermark, page-number and crop handlers all resolve the range to the
  indices from \<open>max 0 (fp - 1)\<close> through \<open>min (tot - 1) (tp - 1)\<close>, or through \<open>tot - 1\<close>
  when the end is \<open>null\<close> or \<open>0\<close>, in ascending order; every index is one of a page;
  when the end precedes the start the result is empty, and nothing fails in computing
  it. The three examples of the specification are instances.
\<close>

theorem range_resolution:
  "(let s = max 0 (fp - 1);
        e = (case tp of
               None \<Rightarrow> int tot - 1
             | Some t \<Rightarrow> if t = 0 then int tot - 1 else min (int tot - 1) (t - 1))
    in targetIndices (Some fp) tp tot = [s..e]
     \<and> map int (applyWatermark_pagesToProcess (Some fp) tp tot False) = [s..e]
     \<and> numbered_pages fp tp tot False = [s..e]
     \<and> crop_pages fp tp tot = [s..e]
     \<and> (e < s \<longrightarrow> [s..e] = [])
     \<and> (\<forall>i \<in> set [s..e]. 0 \<le> i \<and> i < int tot))
   \<and> targetIndices (Some 5) (Some 3) 10 = []
   \<and> targetIndices (Some 1) None 7 = [0, 1, 2, 3, 4, 5, 6]
   \<and> targetIndices (Some 3) (Some 100) 5 = [2, 3, 4]"
proof -
  have ex: "targetIndices (Some 5) (Some 3) 10 = []
   \<and> targetIndices (Some 1) None 7 = [0, 1, 2, 3, 4, 5, 6]
   \<and> targetIndices (Some 3) (Some 100) 5 = [2, 3, 4]"
    by (simp add: targetIndices_eq applyWatermark_startIdx_def applyWatermark_endIdx_def upto_rec1)
  show ?thesis
    using ex
    by (cases tp)
     (simp_all add: Let_def targetIndices_eq applyWatermark_pagesToProcess_eq numbered_pages_eq
        crop_pages_eq applyWatermark_startIdx_def applyWatermark_endIdx_def
        applyPageNumbers_startIdx_def applyPageNumbers_endIdx_def crop_startIdx_def crop_endIdx_def
        min_pred del: min_diff)
qed

theorem range_resolution_witness:
  "numbered_pages 3 (Some 100) 5 False = [2, 3, 4]
   \<and> crop_pages 5 (Some 3) 10 = []
   \<and> map int (applyWatermark_pagesToProcess (Some 1) None 7 False) = [0, 1, 2, 3, 4, 5, 6]
   \<and> crop_pages 2 (Some 0) 4 = [1, 2, 3]"
  using range_resolution [where fp = 3 and tp = "Some 100" and tot = 5]
    range_resolution [where fp = 5 and tp = "Some 3" and tot = 10]
    range_resolution [where fp = 1 and tp = None and tot = 7]
    range_resolution [where fp = 2 and tp = "Some 0" and tot = 4]
  by (simp add: upto_rec1)

text \<open>
  C3 as stated fails for the end \<open>0\<close>: for the range from 1 to 0 on a document of 3
  pages the stated bounds, from \<open>max 0 (1 - 1)\<close> through \<open>min (3 - 1) (0 - 1)\<close>, give the
  empty set, and all three handlers resolve it to every page.
\<close>

theorem range_end_zero_counterexample:
  "targetIndices (Some 1) (Some 0) 3 = [0, 1, 2]
   \<and> map int (applyWatermark_pagesToProcess (Some 1) (Some 0) 3 False) = [0, 1, 2]
   \<and> numbered_pages 1 (Some 0) 3 False = [0, 1, 2]
   \<and> crop_pages 1 (Some 0) 3 = [0, 1, 2]
   \<and> [max 0 (1 - 1) .. min (int 3 - 1) (0 - 1)] = []"
  by (simp add: targetIndices_eq applyWatermark_pagesToProcess_eq numbered_pages_eq crop_pages_eq
      applyWatermark_startIdx_def applyWatermark_endIdx_def applyPageNumbers_startIdx_def
      applyPageNumbers_endIdx_def crop_startIdx_def crop_endIdx_def upto_rec1)

text \<open>
  C10. In the watermark, crop and page-number handlers an end of range equal to \<open>0\<close> is
  taken exactly as \<open>null\<close>: the resolved pages are those of the same start with no end,
  which run to the last page of the document, \<open>tot - 1\<close>.
\<close>

theorem end_zero_is_to_last_page:
  "targetIndices sp (Some 0) tot = targetIndices sp None tot
   \<and> applyWatermark_pagesToProcess sp (Some 0) tot pv = applyWatermark_pagesToProcess sp None tot pv
   \<and> numbered_pages fp (Some 0) tot pv = numbered_pages fp None tot pv
   \<and> crop_pages fp (Some 0) tot = crop_pages fp None tot
   \<and> targetIndices sp None tot = [applyWatermark_startIdx sp .. int tot - 1]
   \<and> numbered_pages fp None tot False = [max 0 (fp - 1) .. int tot - 1]
   \<and> crop_pages fp None tot = [max 0 (fp - 1) .. int tot - 1]"
proof -
  have w: "applyWatermark_endIdx (Some 0) tot = applyWatermark_endIdx None tot"
    by (simp add: applyWatermark_endIdx_def)
  have p: "applyPageNumbers_endIdx (Some 0) tot = applyPageNumbers_endIdx None tot"
    by (simp add: applyPageNumbers_endIdx_def)
  have c: "crop_endIdx (Some 0) tot = crop_endIdx None tot"
    by (simp add: crop_endIdx_def)
  have "targetIndices sp None tot = [applyWatermark_startIdx sp .. int tot - 1]"
    by (simp add: targetIndices_eq applyWatermark_endIdx_def)
  moreover have "numbered_pages fp None tot False = [max 0 (fp - 1) .. int tot - 1]"
    by (simp add: numbered_pages_eq applyPageNumbers_startIdx_def applyPageNumbers_endIdx_def)
  moreover have "crop_pages fp None tot = [max 0 (fp - 1) .. int tot - 1]"
    by (simp add: crop_pages_eq crop_startIdx_def crop_endIdx_def)
  ultimately show ?thesis
    by (simp add: targetIndices_def applyWatermark_pagesToProcess_def numbered_pages_def
        applyPageNumbers_pagesToProcess_def crop_pages_def w p c)
qed

section \<open>Properties of rotation\<close>

lemma js_rem_mod: "js_rem a 360 mod 360 = a mod 360"
proof (cases "0 \<le> a")
  case True
  then show ?thesis by (cases "a = 0") (simp_all add: js_rem_def)
next
  case False
  then have "js_rem a 360 = - ((- a) mod 360)" by (simp add: js_rem_def)
  then show ?thesis by (simp add: mod_minus_eq)
qed

lemma js_rem_bounds: "- 360 < js_rem a 360 \<and> js_rem a 360 < 360"
proof (cases "0 \<le> a")
  case True
  then show ?thesis by (cases "a = 0") (simp_all add: js_rem_def)
next
  case False
  then have "js_rem a 360 = - ((- a) mod 360)" by (simp add: js_rem_def)
  moreover have "0 \<le> (- a) mod 360" "(- a) mod 360 < 360" by simp_all
  ultimately show ?thesis by linarith
qed

lemma js_rem_abs: "\<bar>js_rem a 360\<bar> < 360"
  using js_rem_bounds [of a] by linarith

lemma js_rem_mod_90: "js_rem a 360 mod 90 = a mod 90"
proof -
  have "js_rem a 360 mod 360 mod 90 = a mod 360 mod 90" by (simp only: js_rem_mod)
  then show ?thesis by (simp add: mod_mod_cancel)
qed

lemma length_rotate_step: "length (rotate_step rs a) = length rs"
  by (cases a) (simp_all add: handleRotateAll_def handleRotatePage_def)

lemma handleRotateAll_nth:
  "i < length rs \<Longrightarrow> handleRotateAll angle rs ! i = js_rem (rs ! i + angle) 360"
  by (simp add: handleRotateAll_def)

lemma handleRotatePage_nth:
  "i < length rs \<Longrightarrow> handleRotatePage index angle rs ! i =
     (if index = i then js_rem (rs ! i + angle) 360 else rs ! i)"
  by (simp add: handleRotatePage_def)

lemma rotate_step_mod:
  "i < length rs \<Longrightarrow> rotate_step rs a ! i mod 360 = (rs ! i + delta_for i a) mod 360"
  by (cases a) (simp_all add: handleRotateAll_nth handleRotatePage_nth js_rem_mod)

lemma mod_90_add: "(x::int) mod 90 = 0 \<Longrightarrow> y mod 90 = 0 \<Longrightarrow> (x + y) mod 90 = 0"
  by (simp add: mod_eq_0_iff_dvd)

lemma rotate_step_mod_90:
  "i < length rs \<Longrightarrow> action_angle a mod 90 = 0 \<Longrightarrow> rs ! i mod 90 = 0 \<Longrightarrow>
     rotate_step rs a ! i mod 90 = 0"
  by (cases a) (simp_all add: handleRotateAll_nth handleRotatePage_nth js_rem_mod_90 mod_90_add)

lemma rotate_step_bounds:
  "i < length rs \<Longrightarrow> \<bar>rs ! i\<bar> < 360 \<Longrightarrow> \<bar>rotate_step rs a ! i\<bar> < 360"
  by (cases a) (simp_all add: handleRotateAll_nth handleRotatePage_nth js_rem_abs)

lemma foldl_rotate_step:
  "i < length rs \<Longrightarrow>
     length (foldl rotate_step rs actions) = length rs
   \<and> foldl rotate_step rs actions ! i mod 360 = (rs ! i + (\<Sum>a\<leftarrow>actions. delta_for i a)) mod 360
   \<and> (\<bar>rs ! i\<bar> < 360 \<longrightarrow> \<bar>foldl rotate_step rs actions ! i\<bar> < 360)
   \<and> (rs ! i mod 90 = 0 \<longrightarrow> (\<forall>a\<in>set actions. action_angle a mod 90 = 0) \<longrightarrow> foldl rotate_step rs actions ! i mod 90 = 0)"
proof (induction actions arbitrary: rs)
  case Nil
  then show ?case by simp
next
  case (Cons a actions)
  have i: "i < length (rotate_step rs a)" using Cons.prems by (simp add: length_rotate_step)
  have "(rotate_step rs a ! i + (\<Sum>a\<leftarrow>actions. delta_for i a)) mod 360
      = (rs ! i + delta_for i a + (\<Sum>a\<leftarrow>actions. delta_for i a)) mod 360"
    using rotate_step_mod [OF Cons.prems, of a] by (metis mod_add_left_eq)
  with Cons.IH [OF i] rotate_step_bounds [OF Cons.prems, of a] rotate_step_mod_90 [OF Cons.prems, of a]
  show ?case by (simp add: length_rotate_step add.assoc)
qed

lemma save_rotations_eq:
  "length rotations = length pages \<Longrightarrow>
   (\<forall>i < length pages. (pages ! i + rotations ! i) mod 90 = 0) \<Longrightarrow>
   save_rotations rotations pages = Some (map2 (+) pages rotations)"
proof (induction rotations pages rule: save_rotations.induct)
  case (1 rotations)
  then show ?case by simp
next
  case (2 page pages)
  then show ?case by simp
next
  case (3 rotation rotations page pages)
  from "3.prems"(2) have h: "(page + rotation) mod 90 = 0" by auto
  from "3.prems"(2) have t: "\<forall>i < length pages. (pages ! i + rotations ! i) mod 90 = 0" by auto
  have s: "(if rotation \<noteq> 0 then setRotation (page + rotation) else Some page) = Some (page + rotation)"
    using h by (simp add: setRotation_def)
  from "3.IH" [OF s] "3.prems"(1) t
  have "save_rotations rotations pages = Some (map2 (+) pages rotations)" by simp
  with s show ?case by simp
qed


lemma length_foldl_rotate_step: "length (foldl rotate_step rs actions) = length rs"
  by (induction actions arbitrary: rs) (simp_all add: length_rotate_step)

text \<open>
  C1, as amended. Take a document of \<open>count\<close> pages whose rotations are multiples of 90
  and any sequence of rotation deltas that are multiples of 90, of any sign. The delta
  kept for a page is the running remainder of JavaScript, which has the sign of its
  dividend: it lies strictly between -360 and 360 and is congruent modulo 360 to the
  sum of the page's deltas. Saving succeeds and sets each page's rotation to its
  original rotation plus the kept delta; this is congruent modulo 360 to the original
  plus the sum of the deltas, and is not reduced into the range from 0 to 360. Five
  deltas of +90 on an unrotated page yield 90.
\<close>

theorem rotation_after_save:
  "length pages = count \<Longrightarrow>
   \<forall>p \<in> set pages. p mod 90 = 0 \<Longrightarrow>
   \<forall>a \<in> set actions. action_angle a mod 90 = 0 \<Longrightarrow>
     save_rotations (rotate_session count actions) pages
       = Some (map2 (+) pages (rotate_session count actions))
   \<and> length (rotate_session count actions) = count
   \<and> (\<forall>i < count.
         \<bar>rotate_session count actions ! i\<bar> < 360
       \<and> rotate_session count actions ! i mod 360 = (\<Sum>a\<leftarrow>actions. delta_for i a) mod 360
       \<and> (pages ! i + rotate_session count actions ! i) mod 360
           = (pages ! i + (\<Sum>a\<leftarrow>actions. delta_for i a)) mod 360)
   \<and> save_rotations (rotate_session 1 (replicate 5 (RotatePage 0 90))) [0] = Some [90]"
proof -
  assume assms: "length pages = count" "\<forall>p \<in> set pages. p mod 90 = 0"
    "\<forall>a \<in> set actions. action_angle a mod 90 = 0"
  let ?rs = "rotate_session count actions"
  have len: "length ?rs = count"
    by (simp add: rotate_session_def handleFileSelected_def length_foldl_rotate_step)
  have each: "\<bar>?rs ! i\<bar> < 360 \<and> ?rs ! i mod 360 = (\<Sum>a\<leftarrow>actions. delta_for i a) mod 360
      \<and> ?rs ! i mod 90 = 0" if "i < count" for i
    using foldl_rotate_step [of i "handleFileSelected count" actions] that assms(3)
    by (simp add: rotate_session_def handleFileSelected_def)
  have "\<forall>i < length pages. (pages ! i + ?rs ! i) mod 90 = 0"
    using each assms(1,2) by (simp add: mod_90_add)
  then have "save_rotations ?rs pages = Some (map2 (+) pages ?rs)"
    using len assms(1) by (intro save_rotations_eq) simp_all
  moreover have "(pages ! i + ?rs ! i) mod 360 = (pages ! i + (\<Sum>a\<leftarrow>actions. delta_for i a)) mod 360"
    if "i < count" for i
    using each [OF that] by (metis mod_add_right_eq)
  moreover have "save_rotations (rotate_session 1 (replicate 5 (RotatePage 0 90))) [0] = Some [90]"
    by (simp add: rotate_session_def handleFileSelected_def handleRotatePage_def js_rem_def
        setRotation_def numeral_eq_Suc)
  ultimately show ?thesis using len each by simp
qed

theorem rotation_after_save_witness:
  "save_rotations (rotate_session 2 [RotateAll 90, RotatePage 0 (- 90), RotatePage 1 90]) [0, 270]
     = Some [0, 450]
   \<and> (450::int) mod 360 = (270 + (\<Sum>a\<leftarrow>[RotateAll 90, RotatePage 0 (- 90), RotatePage 1 90].
                                    delta_for 1 a)) mod 360"
  using rotation_after_save [of "[0, 270]" 2 "[RotateAll 90, RotatePage 0 (- 90), RotatePage 1 90]"]
  by (simp add: rotate_session_def handleFileSelected_def handleRotateAll_def
      handleRotatePage_def js_rem_def numeral_2_eq_2)

text \<open>
  C1 as stated fails: one delta of -90 on an unrotated page is kept as -90 and saved as
  the rotation -90, which is negative and is not \<open>(0 + - 90) mod 360 = 270\<close>.
\<close>

theorem rotation_negative_counterexample:
  "save_rotations (rotate_session 1 [RotatePage 0 (- 90)]) [0] = Some [- 90]
   \<and> (- 90 :: int) \<noteq> (0 + - 90) mod 360
   \<and> (- 90 :: int) < 0"
  by (simp add: rotate_session_def handleFileSelected_def handleRotatePage_def js_rem_def
      setRotation_def)

section \<open>Properties of the geometry\<close>

text \<open>
  C2. The conversion of the crop page from percent to points is
  \<open>docX = (uiX / 100) * pageWidth\<close> and \<open>docY = pageHeight - (uiY / 100) * pageHeight - docHeight\<close>,
  with the width and height scaled by the page's width and height over 100; and for
  every rectangle and every positive page width and height, converting and converting
  back with \<open>toUISpace\<close> returns the rectangle itself, so within any tolerance. Numbers
  are real numbers here.
\<close>

theorem crop_conversion_round_trip:
  "0 < pageWidth \<Longrightarrow> 0 < pageHeight \<Longrightarrow>
     (let d = cropConversion uiRect pageWidth pageHeight
      in box_x d = (box_x uiRect / 100) * pageWidth
       \<and> box_width d = (box_width uiRect / 100) * pageWidth
       \<and> box_height d = (box_height uiRect / 100) * pageHeight
       \<and> box_y d = pageHeight - (box_y uiRect / 100) * pageHeight - box_height d
       \<and> toUISpace d pageWidth pageHeight = uiRect)"
  by (simp add: cropConversion_def toUISpace_def Let_def field_simps)

theorem crop_conversion_round_trip_witness:
  "cropConversion \<lparr>box_x = 10, box_y = 10, box_width = 80, box_height = 80\<rparr> 600 800
     = \<lparr>box_x = 60, box_y = 80, box_width = 480, box_height = 640\<rparr>
   \<and> toUISpace \<lparr>box_x = 60, box_y = 80, box_width = 480, box_height = 640\<rparr> 600 800
     = \<lparr>box_x = 10, box_y = 10, box_width = 80, box_height = 80\<rparr>"
  using crop_conversion_round_trip [of 600 800 "\<lparr>box_x = 10, box_y = 10, box_width = 80, box_height = 80\<rparr>"]
  by (simp add: cropConversion_def Let_def)

section \<open>Properties of the placement\<close>

lemma tile_loop_unfold:
  "tile_loop body = [body 0 0, body 0 1, body 0 2, body 1 0, body 1 1, body 1 2,
                     body 2 0, body 2 1, body 2 2]"
  by (simp add: tile_loop_def upt_rec numeral_eq_Suc)

lemma anchor_xy_eq:
  "anchor_xy pos pw ph w h =
     (if pos \<in> {TL, CL, BL} then 20 else if pos \<in> {TC, CC, BC} then (pw - w) / 2 else pw - w - 20,
      if pos \<in> {TL, TC, TR} then ph - h - 20 else if pos \<in> {CL, CC, CR} then (ph - h) / 2 else 20)"
  by (cases pos) (simp_all add: anchor_xy_def str_includes_def Let_def)

lemma number_xy_eq:
  "number_xy npos m pw ph w h =
     (if npos \<in> {Ntl, Nbl} then m else if npos \<in> {Ntc, Nbc} then (pw - w) / 2 else pw - m - w,
      if npos \<in> {Ntl, Ntc, Ntr} then ph - m - h else m)"
  by (cases npos) (simp_all add: number_xy_def str_includes_def str_startsWith_def Let_def)

lemma centred_within: "(e::real) \<le> p - 2 * m \<Longrightarrow> m \<le> (p - e) / 2 \<and> (p - e) / 2 + e \<le> p - m"
  by (simp add: field_simps)

text \<open>
  C6. The fixed placement of a watermark is: left \<open>margin\<close>, centre \<open>(pageWidth - w) / 2\<close>,
  right \<open>pageWidth - w - margin\<close>; top \<open>pageHeight - h - margin\<close>, centre
  \<open>(pageHeight - h) / 2\<close>, bottom \<open>margin\<close>, with the margin 20; the placement of a page
  number is the same on its six positions with the margin of the settings. For every
  position and every element no larger than the page less twice the margin on both axes,
  the placed rectangle lies within \<open>margin\<close> and the page size less \<open>margin\<close> on both axes.
\<close>

theorem anchor_resolution:
  "(let (x, y) = anchor_xy pos pw ph w h
    in x = (if pos \<in> {TL, CL, BL} then 20 else if pos \<in> {TC, CC, BC} then (pw - w) / 2
            else pw - w - 20)
     \<and> y = (if pos \<in> {TL, TC, TR} then ph - h - 20 else if pos \<in> {CL, CC, CR} then (ph - h) / 2
            else 20)
     \<and> (w \<le> pw - 2 * 20 \<and> h \<le> ph - 2 * 20 \<longrightarrow>
          20 \<le> x \<and> x + w \<le> pw - 20 \<and> 20 \<le> y \<and> y + h \<le> ph - 20))
   \<and> (let (x, y) = number_xy npos m pw ph w h
      in x = (if npos \<in> {Ntl, Nbl} then m else if npos \<in> {Ntc, Nbc} then (pw - w) / 2
              else pw - m - w)
       \<and> y = (if npos \<in> {Ntl, Ntc, Ntr} then ph - m - h else m)
       \<and> (w \<le> pw - 2 * m \<and> h \<le> ph - 2 * m \<longrightarrow>
            m \<le> x \<and> x + w \<le> pw - m \<and> m \<le> y \<and> y + h \<le> ph - m))"
proof -
  have wm: "w \<le> pw - 2 * 20 \<Longrightarrow> h \<le> ph - 2 * 20 \<Longrightarrow>
      20 \<le> fst (anchor_xy pos pw ph w h) \<and> fst (anchor_xy pos pw ph w h) + w \<le> pw - 20
    \<and> 20 \<le> snd (anchor_xy pos pw ph w h) \<and> snd (anchor_xy pos pw ph w h) + h \<le> ph - 20"
    using centred_within [of w pw 20] centred_within [of h ph 20]
    by (simp add: anchor_xy_eq)
  have pn: "w \<le> pw - 2 * m \<Longrightarrow> h \<le> ph - 2 * m \<Longrightarrow>
      m \<le> fst (number_xy npos m pw ph w h) \<and> fst (number_xy npos m pw ph w h) + w \<le> pw - m
    \<and> m \<le> snd (number_xy npos m pw ph w h) \<and> snd (number_xy npos m pw ph w h) + h \<le> ph - m"
    using centred_within [of w pw m] centred_within [of h ph m]
    by (simp add: number_xy_eq)
  show ?thesis
    using wm pn by (simp add: case_prod_beta) (simp add: anchor_xy_eq number_xy_eq)
qed

theorem anchor_resolution_witness:
  "anchor_xy TR 600 800 100 50 = (480, 730) \<and> number_xy Nbc 20 600 800 100 50 = (250, 20)
   \<and> (20::real) \<le> 480 \<and> (480::real) + 100 \<le> 600 - 20"
  using anchor_resolution [of TR 600 800 100 50 Nbc 20]
  by (simp add: anchor_xy_eq number_xy_eq)

section \<open>Properties of the loop over pages\<close>

lemma for_pages_Some_iff:
  "distinct idxs \<Longrightarrow> \<forall>i \<in> set idxs. i < length pages \<Longrightarrow>
   for_pages body idxs pages = Some pages' \<longleftrightarrow>
     length pages' = length pages
     \<and> (\<forall>i < length pages. if i \<in> set idxs then body i (pages ! i) = Some (pages' ! i)
                             else pages' ! i = pages ! i)"
proof (induction idxs arbitrary: pages)
  case Nil
  show ?case by (auto simp: list_eq_iff_nth_eq)
next
  case (Cons i rest)
  have i: "i < length pages" "i \<notin> set rest" "distinct rest" using Cons.prems by auto
  have rest: "\<forall>j \<in> set rest. j < length (pages[i := p])" for p using Cons.prems by auto
  show ?case
  proof
    assume "for_pages body (i # rest) pages = Some pages'"
    then obtain p where p: "body i (pages ! i) = Some p"
      and r: "for_pages body rest (pages[i := p]) = Some pages'"
      using i by (auto simp: bind_eq_Some_conv)
    from Cons.IH [OF i(3) rest, of p] r
    have len: "length pages' = length pages"
      and each: "\<forall>j < length pages. if j \<in> set rest then body j (pages[i := p] ! j) = Some (pages' ! j)
                             else pages' ! j = pages[i := p] ! j"
      by simp_all
    have "if j \<in> set (i # rest) then body j (pages ! j) = Some (pages' ! j) else pages' ! j = pages ! j"
      if "j < length pages" for j
    proof (cases "j = i")
      case True
      with each i p show ?thesis by auto
    next
      case False
      with each that show ?thesis by (auto simp: nth_list_update)
    qed
    with len show "length pages' = length pages
     \<and> (\<forall>j < length pages. if j \<in> set (i # rest) then body j (pages ! j) = Some (pages' ! j)
                             else pages' ! j = pages ! j)" by simp
  next
    assume a: "length pages' = length pages
     \<and> (\<forall>j < length pages. if j \<in> set (i # rest) then body j (pages ! j) = Some (pages' ! j)
                             else pages' ! j = pages ! j)"
    then have p: "body i (pages ! i) = Some (pages' ! i)" using i by auto
    have "if j \<in> set rest then body j (pages[i := pages' ! i] ! j) = Some (pages' ! j)
                             else pages' ! j = pages[i := pages' ! i] ! j"
      if "j < length pages" for j
    proof (cases "j = i")
      case True
      with i that show ?thesis by simp
    next
      case False
      with a that show ?thesis by (auto simp: nth_list_update)
    qed
    with a Cons.IH [OF i(3) rest, of "pages' ! i"]
    have "for_pages body rest (pages[i := pages' ! i]) = Some pages'" by simp
    with p i show "for_pages body (i # rest) pages = Some pages'" by simp
  qed
qed

lemma for_pages_succeeds_iff:
  "distinct idxs \<Longrightarrow>
   for_pages body idxs pages \<noteq> None \<longleftrightarrow>
     (\<forall>i \<in> set idxs. i < length pages \<and> body i (pages ! i) \<noteq> None)"
proof (induction idxs arbitrary: pages)
  case Nil
  show ?case by simp
next
  case (Cons i rest)
  have d: "distinct rest" "i \<notin> set rest" using Cons.prems by auto
  show ?case
  proof (cases "i < length pages")
    case False
    then show ?thesis by simp
  next
    case True
    show ?thesis
    proof (cases "body i (pages ! i)")
      case None
      with True show ?thesis by simp
    next
      case (Some p)
      have "pages[i := p] ! j = pages ! j" if "j \<in> set rest" for j
        using d that by (cases "j = i") simp_all
      then have "(\<forall>j \<in> set rest. j < length (pages[i := p]) \<and> body j (pages[i := p] ! j) \<noteq> None)
        \<longleftrightarrow> (\<forall>j \<in> set rest. j < length pages \<and> body j (pages ! j) \<noteq> None)"
        by simp
      with Cons.IH [OF d(1), of "pages[i := p]"] True Some show ?thesis by simp
    qed
  qed
qed

lemma distinct_map_nat_upto: "0 \<le> s \<Longrightarrow> distinct (map nat [s..e])"
  by (auto simp: distinct_map inj_on_def)

lemma set_map_nat_upto: "0 \<le> s \<Longrightarrow> i \<in> set (map nat [s..e]) \<longleftrightarrow> int i \<in> set [s..e]"
proof
  assume "i \<in> set (map nat [s..e])"
  then obtain x where "x \<in> set [s..e]" "i = nat x" by auto
  moreover assume "0 \<le> s"
  ultimately show "int i \<in> set [s..e]" by simp
next
  assume "int i \<in> set [s..e]"
  then have "nat (int i) \<in> nat ` set [s..e]" by (rule imageI)
  then show "i \<in> set (map nat [s..e])" by simp
qed

lemma crop_startIdx_nonneg: "0 \<le> crop_startIdx sp"
  by (simp add: crop_startIdx_def)

lemma crop_endIdx_less: "crop_endIdx ep n < int n"
  by (auto simp: crop_endIdx_def min_less_iff_disj split: option.splits)

lemma applyPageNumbers_startIdx_nonneg: "0 \<le> applyPageNumbers_startIdx fp"
  by (simp add: applyPageNumbers_startIdx_def)

section \<open>Properties of the crop download\<close>

lemma cropPage_eq:
  "cropPage box page =
     page\<lparr>CropBox := Some (cropConversion box (box_width (MediaBox page)) (box_height (MediaBox page))),
          MediaBox := cropConversion box (box_width (MediaBox page)) (box_height (MediaBox page))\<rparr>"
  by (simp add: cropPage_def getSize_def Let_def)

text \<open>
  C9, as amended. The conversion from percent to points checks nothing: for every
  rectangle and every page, whatever the page's width and height, also zero or
  negative ones, it computes the box by the same formulas, and the crop download sets
  it on every page of the range and fails only where loading or saving the document
  fails.
\<close>

theorem crop_any_page_size:
  "load lib f = Some pages \<Longrightarrow>
     (\<exists>pages'. handleDownload lib (Some f) sp ep box = save lib pages'
        \<and> length pages' = length pages
        \<and> (\<forall>i < length pages.
              pages' ! i = (if int i \<in> set (crop_pages sp ep (length pages))
                            then cropPage box (pages ! i) else pages ! i)))
   \<and> (\<forall>page. cropPage box page =
         page\<lparr>CropBox := Some (cropConversion box (box_width (MediaBox page)) (box_height (MediaBox page))),
              MediaBox := cropConversion box (box_width (MediaBox page)) (box_height (MediaBox page))\<rparr>)"
proof -
  assume l: "load lib f = Some pages"
  let ?idxs = "map nat (crop_pages sp ep (length pages))"
  let ?pages' = "map (\<lambda>i. if i \<in> set ?idxs then cropPage box (pages ! i) else pages ! i) [0..<length pages]"
  have d: "distinct ?idxs" by (simp add: crop_pages_eq distinct_map_nat_upto crop_startIdx_nonneg)
  have m: "i \<in> set ?idxs \<longleftrightarrow> int i \<in> set (crop_pages sp ep (length pages))" for i
    unfolding crop_pages_eq by (rule set_map_nat_upto) (rule crop_startIdx_nonneg)
  have r: "\<forall>i \<in> set ?idxs. i < length pages"
  proof
    fix i assume "i \<in> set ?idxs"
    then have "int i \<in> set (crop_pages sp ep (length pages))" using m by blast
    then have "int i \<le> crop_endIdx ep (length pages)" by (simp add: crop_pages_eq)
    with crop_endIdx_less [of ep "length pages"] show "i < length pages" by simp
  qed
  have "for_pages (\<lambda>i page. Some (cropPage box page)) ?idxs pages = Some ?pages'"
    by (subst for_pages_Some_iff [OF d r]) simp
  then have "handleDownload lib (Some f) sp ep box = save lib ?pages'"
    using l by (simp add: handleDownload_def)
  moreover have "length ?pages' = length pages" by simp
  moreover have "\<forall>i < length pages.
      ?pages' ! i = (if int i \<in> set (crop_pages sp ep (length pages))
                            then cropPage box (pages ! i) else pages ! i)"
    using m by simp
  ultimately show ?thesis using cropPage_eq by blast
qed


theorem crop_any_page_size_witness:
  "handleDownload reflib (Some (Pdf [example_page 600 800 NoContents])) 1 None
      \<lparr>box_x = 10, box_y = 10, box_width = 80, box_height = 80\<rparr>
   = Some (Pdf [\<lparr>MediaBox = \<lparr>box_x = 60, box_y = 80, box_width = 480, box_height = 640\<rparr>,
                 CropBox = Some \<lparr>box_x = 60, box_y = 80, box_width = 480, box_height = 640\<rparr>,
                 contents = NoContents\<rparr>])"
  using crop_any_page_size [of reflib "Pdf [example_page 600 800 NoContents]"
      "[example_page 600 800 NoContents]" 1 None
      "\<lparr>box_x = 10, box_y = 10, box_width = 80, box_height = 80\<rparr>"]
  by (simp add: handleDownload_def reflib_def crop_pages_eq crop_startIdx_def crop_endIdx_def
      upto_rec1 cropPage_def getSize_def cropConversion_def example_page_def Let_def)

text \<open>
  C9 as stated fails: on a page of width 0 and height 0 the download does not fail; it
  sets the crop box and the media box to the converted, empty box and saves.
\<close>

theorem crop_zero_size_counterexample:
  "handleDownload reflib (Some (Pdf [example_page 0 0 NoContents])) 1 None
      \<lparr>box_x = 10, box_y = 10, box_width = 80, box_height = 80\<rparr>
   = Some (Pdf [\<lparr>MediaBox = \<lparr>box_x = 0, box_y = 0, box_width = 0, box_height = 0\<rparr>,
                 CropBox = Some \<lparr>box_x = 0, box_y = 0, box_width = 0, box_height = 0\<rparr>,
                 contents = NoContents\<rparr>])
   \<and> getSize (example_page 0 0 NoContents) = (0, 0)"
  by (simp add: handleDownload_def reflib_def crop_pages_eq crop_startIdx_def crop_endIdx_def
      upto_rec1 cropPage_def getSize_def cropConversion_def example_page_def Let_def)

section \<open>Properties of applyWatermark\<close>




lemma distinct_pagesToProcess: "distinct (applyWatermark_pagesToProcess sp ep n pv)"
  by (simp add: applyWatermark_pagesToProcess_def)

lemma pagesToProcess_in_range:
  "\<forall>i \<in> set (applyWatermark_pagesToProcess sp ep n False). i < n"
  by (simp add: applyWatermark_pagesToProcess_def)






lemma applyWatermark_Some_iff:
  "applyWatermark lib f cs False = Some out \<longleftrightarrow>
      (\<exists>pages font pages'.
          load lib f = Some pages \<and> embedFont lib ''Helvetica-Bold'' = Some font
        \<and> length pages' = length pages
        \<and> (\<forall>i < length pages.
              if i \<in> set (applyWatermark_pagesToProcess (startPage cs) (endPage cs) (length pages) False)
              then watermarkPage lib cs False font (prepareImage lib cs False) (pages ! i)
                     = Some (pages' ! i)
              else pages' ! i = pages ! i)
        \<and> save lib pages' = Some out)"
  by (simp add: applyWatermark_def bind_eq_Some_conv Let_def
      for_pages_Some_iff [OF distinct_pagesToProcess pagesToProcess_in_range])

section \<open>Properties of the tiled watermark\<close>

lemma foldl_bind_None: "foldl (\<lambda>acc d. Option.bind acc (f d)) None ds = None"
  by (induction ds) simp_all

lemma draw_all_foldl:
  "draw_all lib ds page = foldl (\<lambda>acc d. Option.bind acc (draw lib d)) (Some page) ds"
proof (induction ds arbitrary: page)
  case Nil
  show ?case by simp
next
  case (Cons d ds)
  show ?case
  proof (cases "draw lib d page")
    case None
    then show ?thesis by (simp add: foldl_bind_None)
  next
    case (Some p)
    with Cons show ?thesis by simp
  qed
qed

lemma draw_all_None_iff:
  "draw_all lib ds page = None \<longleftrightarrow>
     (\<exists>k < length ds. \<exists>p. draw_all lib (take k ds) page = Some p \<and> draw lib (ds ! k) p = None)"
proof (induction ds arbitrary: page)
  case Nil
  show ?case by simp
next
  case (Cons d ds)
  show ?case
  proof (cases "draw lib d page")
    case None
    have "0 < length (d # ds) \<and> draw_all lib (take 0 (d # ds)) page = Some page
        \<and> draw lib ((d # ds) ! 0) page = None"
      using None by simp
    then have "\<exists>k < length (d # ds). \<exists>p. draw_all lib (take k (d # ds)) page = Some p
        \<and> draw lib ((d # ds) ! k) p = None" by blast
    with None show ?thesis by simp
  next
    case (Some p1)
    have "(\<exists>k < length (d # ds). \<exists>p. draw_all lib (take k (d # ds)) page = Some p
              \<and> draw lib ((d # ds) ! k) p = None)
      \<longleftrightarrow> (\<exists>k < length ds. \<exists>p. draw_all lib (take k ds) p1 = Some p \<and> draw lib (ds ! k) p = None)"
      (is "?l \<longleftrightarrow> ?r")
    proof
      assume ?l
      then obtain k p where k: "k < length (d # ds)"
        "draw_all lib (take k (d # ds)) page = Some p" "draw lib ((d # ds) ! k) p = None" by blast
      show ?r
      proof (cases k)
        case 0
        with k Some show ?thesis by simp
      next
        case (Suc j)
        with k Some have "j < length ds \<and> draw_all lib (take j ds) p1 = Some p
            \<and> draw lib (ds ! j) p = None" by simp
        then show ?thesis by blast
      qed
    next
      assume ?r
      then obtain j p where "j < length ds" "draw_all lib (take j ds) p1 = Some p"
        "draw lib (ds ! j) p = None" by blast
      with Some have "Suc j < length (d # ds) \<and> draw_all lib (take (Suc j) (d # ds)) page = Some p
            \<and> draw lib ((d # ds) ! Suc j) p = None" by simp
      then show ?l by blast
    qed
    with Cons.IH [of p1] Some show ?thesis by simp
  qed
qed

lemma bind_Some_map: "Option.bind x (\<lambda>p. Some (f p)) = map_option f x"
  by (cases x) simp_all

lemma watermarkPage_eq:
  "watermarkPage lib cs pv font img page =
     (let w = box_width (MediaBox page);
          h = box_height (MediaBox page);
          draws = (\<lambda>ops. foldl (\<lambda>acc d. Option.bind acc (draw lib d)) (Some page) ops);
          layered = (\<lambda>p. if layer cs = Under then layerUnder lib p else p)
      in case wtype cs of
           Text \<Rightarrow>
             Option.bind (widthOfTextAtSize font (wtext cs) (textSize cs)) (\<lambda>textWidth.
               map_option layered
                 (draws (map (\<lambda>(x, y). DrawText (wtext cs) x y (textSize cs) (Hex (textColor cs))
                                          (Some (opacity cs)) (Some (rotation cs)))
                           (text_placements (isTiled cs) (position cs) w h textWidth
                              (heightAtSize font (textSize cs))))))
         | Image \<Rightarrow>
             if pv
             then map_option layered
                    (draws (concat (map (\<lambda>(x, y).
                       [DrawRectangle x y (200 * imageScale cs) (100 * imageScale cs)
                          (opacity cs) (rotation cs),
                        DrawText ''IMAGE'' (x + 200 * imageScale cs / 2 - 20)
                          (y + 100 * imageScale cs / 2 - 5) 12 (Rgb 0.5 0.5 0.5) None
                          (Some (rotation cs))])
                       (image_placements (isTiled cs) (position cs) w h
                          (200 * imageScale cs) (100 * imageScale cs)))))
             else (case img of
                     Some im \<Rightarrow>
                       map_option layered
                         (draws (map (\<lambda>(x, y). DrawImage im x y
                                          (img_width im * imageScale cs)
                                          (img_height im * imageScale cs)
                                          (opacity cs) (rotation cs))
                                   (image_placements (isTiled cs) (position cs) w h
                                      (img_width im * imageScale cs)
                                      (img_height im * imageScale cs))))
                   | None \<Rightarrow> Some (layered page)))"
  by (cases "widthOfTextAtSize font (wtext cs) (textSize cs)")
     (simp_all add: watermarkPage_def getSize_def Let_def draw_all_foldl bind_Some_map
        split: WatermarkType.splits option.splits)


lemma applyWatermark_reaches_pages:
  "applyWatermark lib f cs False = Some out \<Longrightarrow>
     \<exists>pages font pages'.
        load lib f = Some pages \<and> embedFont lib ''Helvetica-Bold'' = Some font
      \<and> save lib pages' = Some out \<and> length pages' = length pages
      \<and> (\<forall>i < length pages.
            if i \<in> set (applyWatermark_pagesToProcess (startPage cs) (endPage cs) (length pages) False)
            then watermarkPage lib cs False font (prepareImage lib cs False) (pages ! i)
                   = Some (pages' ! i)
            else pages' ! i = pages ! i)"
  unfolding applyWatermark_Some_iff by blast

text \<open>
  C5, as amended. For every page size and element size the tiled placement draws nine
  marks, whose cell centres are \<open>(pageWidth * (2k+1) / 6, pageHeight * (2k+1) / 6)\<close> for
  \<open>k\<close> in 0, 1, 2 on each axis (50, 150, 250 on a page of 300 by 300), the outer loop
  over x and the inner over y. An image, and the placeholder of a preview, is drawn at
  the centre minus half its size on both axes; a text is drawn at the centre minus half
  its width and minus a third of its height. With tiling on, the body of the page loop
  is exactly these drawing calls at the nine centres of the page, one after the other,
  each on the page the call before it returned, and the apply runs this body on every
  page to process.
\<close>

theorem tiled_placements:
  "length (tile_centers w h) = 9
   \<and> tile_centers w h =
       concat (map (\<lambda>kx. map (\<lambda>ky. (w * (2 * real kx + 1) / 6, h * (2 * real ky + 1) / 6)) [0, 1, 2]) [0, 1, 2])
   \<and> tile_centers 300 300 =
       [(50, 50), (50, 150), (50, 250), (150, 50), (150, 150), (150, 250),
        (250, 50), (250, 150), (250, 250)]
   \<and> image_placements True pos w h imgW imgH =
       map (\<lambda>(cx, cy). (cx - imgW / 2, cy - imgH / 2)) (tile_centers w h)
   \<and> text_placements True pos w h textWidth textHeight =
       map (\<lambda>(cx, cy). (cx - textWidth / 2, cy - textHeight / 3)) (tile_centers w h)
   \<and> (isTiled cs \<longrightarrow>
        (let centers = tile_centers (box_width (MediaBox page)) (box_height (MediaBox page));
             draws = (\<lambda>ops. foldl (\<lambda>acc d. Option.bind acc (draw lib d)) (Some page) ops);
             layered = (\<lambda>p. if layer cs = Under then layerUnder lib p else p)
         in (wtype cs = Text \<longrightarrow>
               watermarkPage lib cs pv font img page =
                 Option.bind (widthOfTextAtSize font (wtext cs) (textSize cs)) (\<lambda>textWidth.
                   map_option layered
                     (draws (map (\<lambda>(cx, cy).
                                DrawText (wtext cs) (cx - textWidth / 2)
                                  (cy - heightAtSize font (textSize cs) / 3)
                                  (textSize cs) (Hex (textColor cs))
                                  (Some (opacity cs)) (Some (rotation cs)))
                              centers))))
          \<and> (wtype cs = Image \<and> \<not> pv \<longrightarrow>
               (\<forall>im. img = Some im \<longrightarrow>
                  watermarkPage lib cs pv font img page =
                    map_option layered
                      (draws (map (\<lambda>(cx, cy).
                                 DrawImage im
                                   (cx - img_width im * imageScale cs / 2)
                                   (cy - img_height im * imageScale cs / 2)
                                   (img_width im * imageScale cs) (img_height im * imageScale cs)
                                   (opacity cs) (rotation cs))
                               centers))))
          \<and> (wtype cs = Image \<and> pv \<longrightarrow>
               watermarkPage lib cs pv font img page =
                 map_option layered
                   (draws (concat (map (\<lambda>(cx, cy).
                              [DrawRectangle (cx - 200 * imageScale cs / 2)
                                 (cy - 100 * imageScale cs / 2)
                                 (200 * imageScale cs) (100 * imageScale cs)
                                 (opacity cs) (rotation cs),
                               DrawText ''IMAGE'' (cx - 20) (cy - 5) 12 (Rgb 0.5 0.5 0.5) None
                                 (Some (rotation cs))])
                            centers))))))
   \<and> (applyWatermark lib f cs False = Some out \<longrightarrow>
        (\<exists>pages font pages'.
            load lib f = Some pages \<and> embedFont lib ''Helvetica-Bold'' = Some font
          \<and> save lib pages' = Some out \<and> length pages' = length pages
          \<and> (\<forall>i < length pages.
                if i \<in> set (applyWatermark_pagesToProcess (startPage cs) (endPage cs)
                              (length pages) False)
                then watermarkPage lib cs False font (prepareImage lib cs False) (pages ! i)
                       = Some (pages' ! i)
                else pages' ! i = pages ! i)))"
proof -
  have c: "length (tile_centers w h) = 9
   \<and> tile_centers w h =
       concat (map (\<lambda>kx. map (\<lambda>ky. (w * (2 * real kx + 1) / 6, h * (2 * real ky + 1) / 6)) [0, 1, 2]) [0, 1, 2])
   \<and> tile_centers 300 300 =
       [(50, 50), (50, 150), (50, 250), (150, 50), (150, 150), (150, 250),
        (250, 50), (250, 150), (250, 250)]
   \<and> image_placements True pos w h imgW imgH =
       map (\<lambda>(cx, cy). (cx - imgW / 2, cy - imgH / 2)) (tile_centers w h)
   \<and> text_placements True pos w h textWidth textHeight =
       map (\<lambda>(cx, cy). (cx - textWidth / 2, cy - textHeight / 3)) (tile_centers w h)"
    by (simp add: tile_centers_def image_placements_def text_placements_def tile_loop_unfold Let_def)
  have t: "isTiled cs \<Longrightarrow> wtype cs = Text \<Longrightarrow>
      watermarkPage lib cs pv font img page =
        Option.bind (widthOfTextAtSize font (wtext cs) (textSize cs)) (\<lambda>textWidth.
          map_option (\<lambda>p. if layer cs = Under then layerUnder lib p else p)
            (foldl (\<lambda>acc d. Option.bind acc (draw lib d)) (Some page)
               (map (\<lambda>(cx, cy).
                       DrawText (wtext cs) (cx - textWidth / 2)
                         (cy - heightAtSize font (textSize cs) / 3)
                         (textSize cs) (Hex (textColor cs))
                         (Some (opacity cs)) (Some (rotation cs)))
                  (tile_centers (box_width (MediaBox page)) (box_height (MediaBox page))))))"
    by (simp add: watermarkPage_eq Let_def text_placements_def tile_centers_def tile_loop_unfold)
  have i: "isTiled cs \<Longrightarrow> wtype cs = Image \<Longrightarrow> \<not> pv \<Longrightarrow> img = Some im \<Longrightarrow>
      watermarkPage lib cs pv font img page =
        map_option (\<lambda>p. if layer cs = Under then layerUnder lib p else p)
          (foldl (\<lambda>acc d. Option.bind acc (draw lib d)) (Some page)
             (map (\<lambda>(cx, cy).
                     DrawImage im
                       (cx - img_width im * imageScale cs / 2)
                       (cy - img_height im * imageScale cs / 2)
                       (img_width im * imageScale cs) (img_height im * imageScale cs)
                       (opacity cs) (rotation cs))
                (tile_centers (box_width (MediaBox page)) (box_height (MediaBox page)))))" for im
    by (simp add: watermarkPage_eq Let_def image_placements_def tile_centers_def tile_loop_unfold)
  have p: "isTiled cs \<Longrightarrow> wtype cs = Image \<Longrightarrow> pv \<Longrightarrow>
      watermarkPage lib cs pv font img page =
        map_option (\<lambda>p. if layer cs = Under then layerUnder lib p else p)
          (foldl (\<lambda>acc d. Option.bind acc (draw lib d)) (Some page)
             (concat (map (\<lambda>(cx, cy).
                        [DrawRectangle (cx - 200 * imageScale cs / 2)
                           (cy - 100 * imageScale cs / 2)
                           (200 * imageScale cs) (100 * imageScale cs)
                           (opacity cs) (rotation cs),
                         DrawText ''IMAGE'' (cx - 20) (cy - 5) 12 (Rgb 0.5 0.5 0.5) None
                           (Some (rotation cs))])
                (tile_centers (box_width (MediaBox page)) (box_height (MediaBox page))))))"
    by (simp add: watermarkPage_eq Let_def image_placements_def tile_centers_def tile_loop_unfold)
  show ?thesis
    using c t i p applyWatermark_reaches_pages [of lib f cs out]
    by (simp add: Let_def)
qed

theorem tiled_placements_witness:
  "applyWatermark reflib (Pdf [example_page 300 300 NoContents])
      (defaultSettings\<lparr>isTiled := True\<rparr>) False
   = Some (Pdf [example_page 300 300 (PDFArray [Drawn
       [DrawText ''CONFIDENTIAL'' (- 94) 34 48 (Hex ''#FF0000'') (Some 0.5) (Some (- 45)),
        DrawText ''CONFIDENTIAL'' (- 94) 134 48 (Hex ''#FF0000'') (Some 0.5) (Some (- 45)),
        DrawText ''CONFIDENTIAL'' (- 94) 234 48 (Hex ''#FF0000'') (Some 0.5) (Some (- 45)),
        DrawText ''CONFIDENTIAL'' 6 34 48 (Hex ''#FF0000'') (Some 0.5) (Some (- 45)),
        DrawText ''CONFIDENTIAL'' 6 134 48 (Hex ''#FF0000'') (Some 0.5) (Some (- 45)),
        DrawText ''CONFIDENTIAL'' 6 234 48 (Hex ''#FF0000'') (Some 0.5) (Some (- 45)),
        DrawText ''CONFIDENTIAL'' 106 34 48 (Hex ''#FF0000'') (Some 0.5) (Some (- 45)),
        DrawText ''CONFIDENTIAL'' 106 134 48 (Hex ''#FF0000'') (Some 0.5) (Some (- 45)),
        DrawText ''CONFIDENTIAL'' 106 234 48 (Hex ''#FF0000'') (Some 0.5) (Some (- 45))]])])"
proof -
  let ?cs = "defaultSettings\<lparr>isTiled := True\<rparr>"
  let ?page = "example_page 300 300 NoContents"
  have h: "isTiled ?cs" "wtype ?cs = Text" by (simp_all add: defaultSettings_def)
  note t = tiled_placements [where lib = reflib and cs = ?cs and page = ?page and pv = False
      and font = ref_font and img = None, THEN conjunct2, THEN conjunct2, THEN conjunct2,
      THEN conjunct2, THEN conjunct2, THEN conjunct1, rule_format, OF h(1),
      unfolded Let_def, THEN conjunct1, rule_format, OF h(2)]
  have "watermarkPage reflib ?cs False ref_font None ?page
     = Some (example_page 300 300 (PDFArray [Drawn
       [DrawText ''CONFIDENTIAL'' (- 94) 34 48 (Hex ''#FF0000'') (Some 0.5) (Some (- 45)),
        DrawText ''CONFIDENTIAL'' (- 94) 134 48 (Hex ''#FF0000'') (Some 0.5) (Some (- 45)),
        DrawText ''CONFIDENTIAL'' (- 94) 234 48 (Hex ''#FF0000'') (Some 0.5) (Some (- 45)),
        DrawText ''CONFIDENTIAL'' 6 34 48 (Hex ''#FF0000'') (Some 0.5) (Some (- 45)),
        DrawText ''CONFIDENTIAL'' 6 134 48 (Hex ''#FF0000'') (Some 0.5) (Some (- 45)),
        DrawText ''CONFIDENTIAL'' 6 234 48 (Hex ''#FF0000'') (Some 0.5) (Some (- 45)),
        DrawText ''CONFIDENTIAL'' 106 34 48 (Hex ''#FF0000'') (Some 0.5) (Some (- 45)),
        DrawText ''CONFIDENTIAL'' 106 134 48 (Hex ''#FF0000'') (Some 0.5) (Some (- 45)),
        DrawText ''CONFIDENTIAL'' 106 234 48 (Hex ''#FF0000'') (Some 0.5) (Some (- 45))]]))"
    by (subst t)
       (simp add: reflib_def defaultSettings_def example_page_def ref_font_def ref_draw_def
          append_draw_def tile_centers_def tile_loop_unfold)
  then show ?thesis
    by (simp add: applyWatermark_def reflib_def defaultSettings_def example_page_def
      applyWatermark_pagesToProcess_def targetIndices_eq applyWatermark_startIdx_def
      applyWatermark_endIdx_def prepareImage_def)
qed

text \<open>
  C5 as stated fails for a text watermark: a text of width 60 and height 30 on a page
  of 300 by 300 has its first mark drawn at \<open>(20, 40)\<close>, which is not the centre
  \<open>(50, 50)\<close> minus half the size, \<open>(20, 35)\<close>.
\<close>

theorem tiled_text_counterexample:
  "text_placements True CC 300 300 60 30 ! 0 = (20, 40)
   \<and> tile_centers 300 300 ! 0 = (50, 50)
   \<and> ((20, 40) :: real \<times> real) \<noteq> (50 - 60 / 2, 50 - 30 / 2)"
  by (simp add: tile_centers_def text_placements_def tile_loop_unfold Let_def)

section \<open>Properties of applyPageNumbers\<close>

lemma distinct_numbered_pages: "distinct (map nat (numbered_pages fp tp n False))"
  by (simp add: numbered_pages_eq distinct_map_nat_upto applyPageNumbers_startIdx_nonneg)

lemma set_numbered_pages:
  "i \<in> set (map nat (numbered_pages fp tp n False)) \<longleftrightarrow> int i \<in> set (numbered_pages fp tp n False)"
  unfolding numbered_pages_eq
  by (rule set_map_nat_upto) (rule applyPageNumbers_startIdx_nonneg)

lemma numbered_pages_in_range: "\<forall>i \<in> set (map nat (numbered_pages fp tp n False)). i < n"
proof
  fix i assume "i \<in> set (map nat (numbered_pages fp tp n False))"
  then have "int i \<in> set (numbered_pages fp tp n False)" by (simp only: set_numbered_pages)
  then have "int i \<le> applyPageNumbers_endIdx tp n - 1" by (simp add: numbered_pages_eq)
  with applyPageNumbers_endIdx_le [of tp n] show "i < n" by simp
qed

lemma applyPageNumbers_Some_iff:
  "applyPageNumbers lib f ns False = Some out \<longleftrightarrow>
      (\<exists>pages font pages'.
          load lib f = Some pages \<and> embedFont lib ''Helvetica'' = Some font
        \<and> length pages' = length pages
        \<and> (\<forall>i < length pages.
              if int i \<in> set (numbered_pages (fromPage ns) (toPage ns) (length pages) False)
              then numberPage lib ns font (length pages)
                     (applyPageNumbers_startIdx (fromPage ns)) i (pages ! i) = Some (pages' ! i)
              else pages' ! i = pages ! i)
        \<and> save lib pages' = Some out)"
  by (simp add: applyPageNumbers_def bind_eq_Some_conv Let_def
      for_pages_Some_iff [OF distinct_numbered_pages numbered_pages_in_range]
      set_numbered_pages [simplified])

lemma numberPage_Some_iff:
  "numberPage lib ns font tot s i page = Some page' \<longleftrightarrow>
     (let text = number_text (format ns) (startFrom ns + (int i - s)) tot
      in \<exists>textWidth. widthOfTextAtSize font text (fontSize ns) = Some textWidth
           \<and> draw lib (DrawText text
                 (fst (number_xy (number_position ns) (margin ns) (box_width (MediaBox page))
                        (box_height (MediaBox page)) textWidth (heightAtSize font (fontSize ns))))
                 (snd (number_xy (number_position ns) (margin ns) (box_width (MediaBox page))
                        (box_height (MediaBox page)) textWidth (heightAtSize font (fontSize ns))))
                 (fontSize ns) (Hex (color ns)) None None) page = Some page')"
  by (simp add: numberPage_def getSize_def Let_def bind_eq_Some_conv case_prod_beta)

text \<open>
  C4. When \<open>applyPageNumbers\<close> returns a document, every page of the resolved range
  has had drawn on it the text of its format with the number
  \<open>N = startFrom + (pageIndex - rangeStart)\<close>, and with the total \<open>T\<close> the number of
  pages of the whole document, and the other pages are untouched. For the range from 2
  to 5 and a start value 1 the numbers are 1, 2, 3, 4, and on a document of 20 pages the
  format "Page N of T" gives the first page of that range the text "Page 1 of 20".
\<close>

theorem page_number_sequence:
  "(load lib f = Some pages \<and> embedFont lib ''Helvetica'' = Some font
      \<and> applyPageNumbers lib f ns False = Some out \<longrightarrow>
      (\<exists>pages'. save lib pages' = Some out \<and> length pages' = length pages
         \<and> (\<forall>i < length pages.
               if int i \<in> set (numbered_pages (fromPage ns) (toPage ns) (length pages) False)
               then (let N = startFrom ns + (int i - max 0 (fromPage ns - 1));
                         T = length pages;
                         text = number_text (format ns) N T
                     in \<exists>textWidth.
                          widthOfTextAtSize font text (fontSize ns) = Some textWidth
                        \<and> (case number_xy (number_position ns) (margin ns)
                                   (fst (getSize (pages ! i))) (snd (getSize (pages ! i)))
                                   textWidth (heightAtSize font (fontSize ns)) of
                             (x, y) \<Rightarrow>
                               draw lib (DrawText text x y (fontSize ns) (Hex (color ns)) None None)
                                 (pages ! i) = Some (pages' ! i)))
               else pages' ! i = pages ! i)))
   \<and> number_text Fmt_n N T = show_int N
   \<and> number_text Fmt_n_of_total N T = show_int N @ '' of '' @ show_nat T
   \<and> number_text Fmt_Page_n N T = ''Page '' @ show_int N
   \<and> number_text Fmt_Page_n_of_total N T = ''Page '' @ show_int N @ '' of '' @ show_nat T
   \<and> map (\<lambda>i. 1 + (i - max 0 (2 - 1))) (numbered_pages 2 (Some 5) 20 False) = [1, 2, 3, 4]
   \<and> number_text Fmt_Page_n_of_total (1 + (1 - max 0 (2 - 1))) 20 = ''Page 1 of 20''"
proof -
  have gen: "\<exists>pages'. save lib pages' = Some out \<and> length pages' = length pages
         \<and> (\<forall>i < length pages.
               if int i \<in> set (numbered_pages (fromPage ns) (toPage ns) (length pages) False)
               then (let N = startFrom ns + (int i - max 0 (fromPage ns - 1));
                         T = length pages;
                         text = number_text (format ns) N T
                     in \<exists>textWidth.
                          widthOfTextAtSize font text (fontSize ns) = Some textWidth
                        \<and> (case number_xy (number_position ns) (margin ns)
                                   (fst (getSize (pages ! i))) (snd (getSize (pages ! i)))
                                   textWidth (heightAtSize font (fontSize ns)) of
                             (x, y) \<Rightarrow>
                               draw lib (DrawText text x y (fontSize ns) (Hex (color ns)) None None)
                                 (pages ! i) = Some (pages' ! i)))
               else pages' ! i = pages ! i)"
    if l: "load lib f = Some pages" and e: "embedFont lib ''Helvetica'' = Some font"
      and a: "applyPageNumbers lib f ns False = Some out"
  proof -
    from a l e obtain pages' where p: "length pages' = length pages" "save lib pages' = Some out"
      and each: "\<forall>i < length pages.
              if int i \<in> set (numbered_pages (fromPage ns) (toPage ns) (length pages) False)
              then numberPage lib ns font (length pages)
                     (applyPageNumbers_startIdx (fromPage ns)) i (pages ! i) = Some (pages' ! i)
              else pages' ! i = pages ! i"
      unfolding applyPageNumbers_Some_iff by auto
    have "if int i \<in> set (numbered_pages (fromPage ns) (toPage ns) (length pages) False)
               then (let N = startFrom ns + (int i - max 0 (fromPage ns - 1));
                         T = length pages;
                         text = number_text (format ns) N T
                     in \<exists>textWidth.
                          widthOfTextAtSize font text (fontSize ns) = Some textWidth
                        \<and> (case number_xy (number_position ns) (margin ns)
                                   (fst (getSize (pages ! i))) (snd (getSize (pages ! i)))
                                   textWidth (heightAtSize font (fontSize ns)) of
                             (x, y) \<Rightarrow>
                               draw lib (DrawText text x y (fontSize ns) (Hex (color ns)) None None)
                                 (pages ! i) = Some (pages' ! i)))
               else pages' ! i = pages ! i" if "i < length pages" for i
      using each [rule_format, OF that]
      by (auto simp: numberPage_Some_iff applyPageNumbers_startIdx_def Let_def case_prod_beta
          getSize_def split: if_splits)
    with p show ?thesis by blast
  qed
  have "number_text Fmt_Page_n_of_total (1 + (1 - max 0 (2 - 1))) 20 = ''Page 1 of 20''"
    by (simp add: number_text_def show_int_def show_nat.simps)
  moreover have "map (\<lambda>i. 1 + (i - max 0 (2 - 1))) (numbered_pages 2 (Some 5) 20 False) = [1, 2, 3, 4]"
    by (simp add: numbered_pages_eq applyPageNumbers_startIdx_def applyPageNumbers_endIdx_def upto_rec1)
  ultimately show ?thesis using gen by (simp add: number_text_def)
qed

theorem page_number_sequence_witness:
  "applyPageNumbers reflib (Pdf (replicate 3 (example_page 600 800 NoContents)))
      (defaultNumberSettings\<lparr>format := Fmt_Page_n_of_total, fromPage := 2, toPage := Some 3\<rparr>) False
   = Some (Pdf [example_page 600 800 NoContents,
        example_page 600 800 (PDFArray
          [Drawn [DrawText ''Page 1 of 3'' 267 20 12 (Hex ''#000000'') None None]]),
        example_page 600 800 (PDFArray
          [Drawn [DrawText ''Page 2 of 3'' 267 20 12 (Hex ''#000000'') None None]])])"
  using page_number_sequence [of reflib "Pdf (replicate 3 (example_page 600 800 NoContents))"
      "replicate 3 (example_page 600 800 NoContents)" ref_font
      "defaultNumberSettings\<lparr>format := Fmt_Page_n_of_total, fromPage := 2, toPage := Some 3\<rparr>"]
  by (simp add: applyPageNumbers_def reflib_def defaultNumberSettings_def example_page_def
      numbered_pages_eq applyPageNumbers_startIdx_def applyPageNumbers_endIdx_def upto_rec1
      numberPage_def getSize_def ref_font_def number_text_def show_int_def show_nat.simps
      number_xy_eq ref_draw_def Let_def numeral_3_eq_3)

section \<open>Failure of an apply\<close>

lemma draws_None_iff:
  "foldl (\<lambda>acc d. Option.bind acc (draw (lib :: 'f pdflib) d)) (Some page) ds = None \<longleftrightarrow>
     (\<exists>k < length ds. \<exists>p.
         foldl (\<lambda>acc d. Option.bind acc (draw lib d)) (Some page) (take k ds) = Some p
       \<and> draw lib (ds ! k) p = None)"
  using draw_all_None_iff [of lib ds page] by (simp add: draw_all_foldl)

lemma apply_font_fails:
  "(embedFont lib ''Helvetica-Bold'' = None \<longrightarrow> applyWatermark lib f cs pv = None)
    \<and> (embedFont lib ''Helvetica'' = None \<longrightarrow> applyPageNumbers lib f ns pv = None)"
  by (cases "load lib f") (simp_all add: applyWatermark_def applyPageNumbers_def Let_def)

lemma watermarkPage_None_iff:
  "watermarkPage lib cs pv font img page = None \<longleftrightarrow>
     (let w = box_width (MediaBox page);
          h = box_height (MediaBox page);
          thrown = (\<lambda>ops. \<exists>k < length ops. \<exists>p.
                      foldl (\<lambda>acc d. Option.bind acc (draw lib d)) (Some page) (take k ops) = Some p
                    \<and> draw lib (ops ! k) p = None)
      in case wtype cs of
           Text \<Rightarrow>
             (case widthOfTextAtSize font (wtext cs) (textSize cs) of
                None \<Rightarrow> True
              | Some textWidth \<Rightarrow> thrown
                     (map (\<lambda>(x, y). DrawText (wtext cs) x y (textSize cs) (Hex (textColor cs))
                                   (Some (opacity cs)) (Some (rotation cs)))
                        (text_placements (isTiled cs) (position cs) w h textWidth
                           (heightAtSize font (textSize cs)))))
         | Image \<Rightarrow>
             if pv
             then thrown
                    (concat (map (\<lambda>(x, y).
                       [DrawRectangle x y (200 * imageScale cs) (100 * imageScale cs)
                          (opacity cs) (rotation cs),
                        DrawText ''IMAGE'' (x + 200 * imageScale cs / 2 - 20)
                          (y + 100 * imageScale cs / 2 - 5) 12 (Rgb 0.5 0.5 0.5) None
                          (Some (rotation cs))])
                       (image_placements (isTiled cs) (position cs) w h
                          (200 * imageScale cs) (100 * imageScale cs))))
             else (case img of
                     Some im \<Rightarrow> thrown
                             (map (\<lambda>(x, y). DrawImage im x y
                                       (img_width im * imageScale cs)
                                       (img_height im * imageScale cs)
                                       (opacity cs) (rotation cs))
                                (image_placements (isTiled cs) (position cs) w h
                                   (img_width im * imageScale cs)
                                   (img_height im * imageScale cs)))
                   | None \<Rightarrow> False))"
  by (cases "widthOfTextAtSize font (wtext cs) (textSize cs)")
     (simp_all add: watermarkPage_eq Let_def draws_None_iff
        split: WatermarkType.splits option.splits)

lemma numberPage_None_iff:
  "numberPage lib ns font tot s i page = None \<longleftrightarrow>
     (let text = number_text (format ns) (startFrom ns + (int i - s)) tot
      in case widthOfTextAtSize font text (fontSize ns) of
           None \<Rightarrow> True
         | Some textWidth \<Rightarrow>
             (case number_xy (number_position ns) (margin ns)
                     (box_width (MediaBox page)) (box_height (MediaBox page))
                     textWidth (heightAtSize font (fontSize ns)) of
                (x, y) \<Rightarrow>
                  draw lib (DrawText text x y (fontSize ns) (Hex (color ns)) None None) page
                    = None))"
  by (cases "widthOfTextAtSize font (number_text (format ns) (startFrom ns + (int i - s)) tot)
               (fontSize ns)")
     (simp_all add: numberPage_def getSize_def Let_def case_prod_beta)

lemma applyWatermark_page_fails:
  "load lib f = Some pages \<and> embedFont lib ''Helvetica-Bold'' = Some font
      \<and> i \<in> set (applyWatermark_pagesToProcess (startPage cs) (endPage cs) (length pages) False)
      \<and> watermarkPage lib cs False font (prepareImage lib cs False) (pages ! i) = None
    \<longrightarrow> applyWatermark lib f cs False = None"
proof
  assume a: "load lib f = Some pages \<and> embedFont lib ''Helvetica-Bold'' = Some font
      \<and> i \<in> set (applyWatermark_pagesToProcess (startPage cs) (endPage cs) (length pages) False)
      \<and> watermarkPage lib cs False font (prepareImage lib cs False) (pages ! i) = None"
  then have "for_pages (\<lambda>i. watermarkPage lib cs False font (prepareImage lib cs False))
      (applyWatermark_pagesToProcess (startPage cs) (endPage cs) (length pages) False) pages = None"
    using for_pages_succeeds_iff [OF distinct_pagesToProcess,
        of "\<lambda>i. watermarkPage lib cs False font (prepareImage lib cs False)"
          "startPage cs" "endPage cs" "length pages" False pages]
    by blast
  with a show "applyWatermark lib f cs False = None" by (simp add: applyWatermark_def)
qed

lemma applyPageNumbers_page_fails:
  "load lib f = Some pages \<and> embedFont lib ''Helvetica'' = Some font
      \<and> int i \<in> set (numbered_pages (fromPage ns) (toPage ns) (length pages) False)
      \<and> numberPage lib ns font (length pages) (applyPageNumbers_startIdx (fromPage ns)) i
            (pages ! i) = None
    \<longrightarrow> applyPageNumbers lib f ns False = None"
proof
  assume a: "load lib f = Some pages \<and> embedFont lib ''Helvetica'' = Some font
      \<and> int i \<in> set (numbered_pages (fromPage ns) (toPage ns) (length pages) False)
      \<and> numberPage lib ns font (length pages) (applyPageNumbers_startIdx (fromPage ns)) i
            (pages ! i) = None"
  then have "i \<in> set (map nat (numbered_pages (fromPage ns) (toPage ns) (length pages) False))"
    by (simp only: set_numbered_pages)
  with a have "for_pages (numberPage lib ns font (length pages)
        (applyPageNumbers_startIdx (fromPage ns)))
      (map nat (numbered_pages (fromPage ns) (toPage ns) (length pages) False)) pages = None"
    using for_pages_succeeds_iff [OF distinct_numbered_pages,
        of "numberPage lib ns font (length pages) (applyPageNumbers_startIdx (fromPage ns))"
          "fromPage ns" "toPage ns" "length pages" pages]
    by blast
  with a show "applyPageNumbers lib f ns False = None" by (simp add: applyPageNumbers_def)
qed

lemma applyWatermark_saves:
  "load lib f = Some pages \<and> embedFont lib ''Helvetica-Bold'' = Some font
      \<and> length pages' = length pages
      \<and> (\<forall>i < length pages.
           if i \<in> set (applyWatermark_pagesToProcess (startPage cs) (endPage cs) (length pages) False)
           then watermarkPage lib cs False font (prepareImage lib cs False) (pages ! i)
                  = Some (pages' ! i)
           else pages' ! i = pages ! i)
    \<longrightarrow> applyWatermark lib f cs False = save lib pages'"
proof
  assume a: "load lib f = Some pages \<and> embedFont lib ''Helvetica-Bold'' = Some font
      \<and> length pages' = length pages
      \<and> (\<forall>i < length pages.
           if i \<in> set (applyWatermark_pagesToProcess (startPage cs) (endPage cs) (length pages) False)
           then watermarkPage lib cs False font (prepareImage lib cs False) (pages ! i)
                  = Some (pages' ! i)
           else pages' ! i = pages ! i)"
  then have "for_pages (\<lambda>i. watermarkPage lib cs False font (prepareImage lib cs False))
      (applyWatermark_pagesToProcess (startPage cs) (endPage cs) (length pages) False) pages
      = Some pages'"
    by (simp add: for_pages_Some_iff [OF distinct_pagesToProcess pagesToProcess_in_range])
  with a show "applyWatermark lib f cs False = save lib pages'" by (simp add: applyWatermark_def)
qed

lemma applyPageNumbers_saves:
  "load lib f = Some pages \<and> embedFont lib ''Helvetica'' = Some font
      \<and> length pages' = length pages
      \<and> (\<forall>i < length pages.
           if int i \<in> set (numbered_pages (fromPage ns) (toPage ns) (length pages) False)
           then numberPage lib ns font (length pages)
                  (applyPageNumbers_startIdx (fromPage ns)) i (pages ! i) = Some (pages' ! i)
           else pages' ! i = pages ! i)
    \<longrightarrow> applyPageNumbers lib f ns False = save lib pages'"
proof
  assume a: "load lib f = Some pages \<and> embedFont lib ''Helvetica'' = Some font
      \<and> length pages' = length pages
      \<and> (\<forall>i < length pages.
           if int i \<in> set (numbered_pages (fromPage ns) (toPage ns) (length pages) False)
           then numberPage lib ns font (length pages)
                  (applyPageNumbers_startIdx (fromPage ns)) i (pages ! i) = Some (pages' ! i)
           else pages' ! i = pages ! i)"
  then have "for_pages (numberPage lib ns font (length pages)
        (applyPageNumbers_startIdx (fromPage ns)))
      (map nat (numbered_pages (fromPage ns) (toPage ns) (length pages) False)) pages
      = Some pages'"
    by (simp add: for_pages_Some_iff [OF distinct_numbered_pages numbered_pages_in_range]
        set_numbered_pages [simplified])
  with a show "applyPageNumbers lib f ns False = save lib pages'"
    by (simp add: applyPageNumbers_def)
qed

lemma embed_failure_swallowed:
  "embedPng lib b = None \<and> embedJpg lib b = None \<longrightarrow>
      embedImage lib t b = None
    \<and> (wtype cs = Image \<and> imageFile cs = Some (t, b) \<and> layer cs = Over
         \<and> load lib f = Some pages \<and> embedFont lib ''Helvetica-Bold'' = Some font
       \<longrightarrow> applyWatermark lib f cs False = save lib pages)"
proof
  assume e: "embedPng lib b = None \<and> embedJpg lib b = None"
  then have n: "embedImage lib t b = None" by (simp add: embedImage_def)
  have "applyWatermark lib f cs False = save lib pages"
    if h: "wtype cs = Image \<and> imageFile cs = Some (t, b) \<and> layer cs = Over
         \<and> load lib f = Some pages \<and> embedFont lib ''Helvetica-Bold'' = Some font"
  proof -
    have "prepareImage lib cs False = None" using h n by (simp add: prepareImage_def)
    then have "watermarkPage lib cs False font (prepareImage lib cs False) page = Some page"
      for page using h by (simp add: watermarkPage_def getSize_def)
    then have "for_pages (\<lambda>i. watermarkPage lib cs False font (prepareImage lib cs False))
      (applyWatermark_pagesToProcess (startPage cs) (endPage cs) (length pages) False) pages
      = Some pages"
      by (simp add: for_pages_Some_iff [OF distinct_pagesToProcess pagesToProcess_in_range])
    with h show ?thesis by (simp add: applyWatermark_def)
  qed
  with n show "embedImage lib t b = None
    \<and> (wtype cs = Image \<and> imageFile cs = Some (t, b) \<and> layer cs = Over
         \<and> load lib f = Some pages \<and> embedFont lib ''Helvetica-Bold'' = Some font
       \<longrightarrow> applyWatermark lib f cs False = save lib pages)" by blast
qed

lemma layerUnder_throws:
  "Contents_throws lib page \<longrightarrow> layerUnder lib page = page"
  by (simp add: layerUnder_def)

text \<open>
  C8, as amended. \<open>applyWatermark\<close> and \<open>applyPageNumbers\<close> return bytes exactly when
  the document loads, the font embeds, the loop body runs to its end on every page to
  process, and the save of the resulting document succeeds; the bytes are then that
  save, of the document in which every page to process is the outcome of the whole body
  and every other page is as loaded. The result is \<open>null\<close> when the load throws, when
  the embedding of the font throws, when the body throws on a page to process, and when
  the save throws; and the body throws exactly when the measuring of the text throws or
  one of its drawing calls throws, the calls before it having succeeded. So a document
  transformed in part is never returned. The input file is a value that no step
  changes. Two failures are caught inside \<open>applyWatermark\<close> and do not end the apply:
  when both embeddings of the image throw, no image is held and nothing is drawn, so
  that with the layer Over the document is saved as it was loaded; and when the look-up
  of the \<open>Contents\<close> throws in the Under step, the page is left as drawn.
\<close>

theorem apply_all_or_nothing:
  "(applyWatermark lib f cs False = Some out \<longleftrightarrow>
      (\<exists>pages font pages'.
          load lib f = Some pages \<and> embedFont lib ''Helvetica-Bold'' = Some font
        \<and> length pages' = length pages
        \<and> (\<forall>i < length pages.
              if i \<in> set (applyWatermark_pagesToProcess (startPage cs) (endPage cs) (length pages) False)
              then watermarkPage lib cs False font (prepareImage lib cs False) (pages ! i)
                     = Some (pages' ! i)
              else pages' ! i = pages ! i)
        \<and> save lib pages' = Some out))
   \<and> (applyPageNumbers lib f ns False = Some out \<longleftrightarrow>
      (\<exists>pages font pages'.
          load lib f = Some pages \<and> embedFont lib ''Helvetica'' = Some font
        \<and> length pages' = length pages
        \<and> (\<forall>i < length pages.
              if int i \<in> set (numbered_pages (fromPage ns) (toPage ns) (length pages) False)
              then numberPage lib ns font (length pages)
                     (applyPageNumbers_startIdx (fromPage ns)) i (pages ! i) = Some (pages' ! i)
              else pages' ! i = pages ! i)
        \<and> save lib pages' = Some out))
   \<and> (load lib f = None \<longrightarrow>
        applyWatermark lib f cs pv = None \<and> applyPageNumbers lib f ns pv = None)
   \<and> ((embedFont lib ''Helvetica-Bold'' = None \<longrightarrow> applyWatermark lib f cs pv = None)
    \<and> (embedFont lib ''Helvetica'' = None \<longrightarrow> applyPageNumbers lib f ns pv = None))
   \<and> (watermarkPage lib cs pv font img page = None \<longleftrightarrow>
     (let w = box_width (MediaBox page);
          h = box_height (MediaBox page);
          thrown = (\<lambda>ops. \<exists>k < length ops. \<exists>p.
                      foldl (\<lambda>acc d. Option.bind acc (draw lib d)) (Some page) (take k ops) = Some p
                    \<and> draw lib (ops ! k) p = None)
      in case wtype cs of
           Text \<Rightarrow>
             (case widthOfTextAtSize font (wtext cs) (textSize cs) of
                None \<Rightarrow> True
              | Some textWidth \<Rightarrow> thrown
                     (map (\<lambda>(x, y). DrawText (wtext cs) x y (textSize cs) (Hex (textColor cs))
                                   (Some (opacity cs)) (Some (rotation cs)))
                        (text_placements (isTiled cs) (position cs) w h textWidth
                           (heightAtSize font (textSize cs)))))
         | Image \<Rightarrow>
             if pv
             then thrown
                    (concat (map (\<lambda>(x, y).
                       [DrawRectangle x y (200 * imageScale cs) (100 * imageScale cs)
                          (opacity cs) (rotation cs),
                        DrawText ''IMAGE'' (x + 200 * imageScale cs / 2 - 20)
                          (y + 100 * imageScale cs / 2 - 5) 12 (Rgb 0.5 0.5 0.5) None
                          (Some (rotation cs))])
                       (image_placements (isTiled cs) (position cs) w h
                          (200 * imageScale cs) (100 * imageScale cs))))
             else (case img of
                     Some im \<Rightarrow> thrown
                             (map (\<lambda>(x, y). DrawImage im x y
                                       (img_width im * imageScale cs)
                                       (img_height im * imageScale cs)
                                       (opacity cs) (rotation cs))
                                (image_placements (isTiled cs) (position cs) w h
                                   (img_width im * imageScale cs)
                                   (img_height im * imageScale cs)))
                   | None \<Rightarrow> False)))
   \<and> (numberPage lib ns font tot s i page = None \<longleftrightarrow>
     (let text = number_text (format ns) (startFrom ns + (int i - s)) tot
      in case widthOfTextAtSize font text (fontSize ns) of
           None \<Rightarrow> True
         | Some textWidth \<Rightarrow>
             (case number_xy (number_position ns) (margin ns)
                     (box_width (MediaBox page)) (box_height (MediaBox page))
                     textWidth (heightAtSize font (fontSize ns)) of
                (x, y) \<Rightarrow>
                  draw lib (DrawText text x y (fontSize ns) (Hex (color ns)) None None) page
                    = None)))
   \<and> (load lib f = Some pages \<and> embedFont lib ''Helvetica-Bold'' = Some font
      \<and> i \<in> set (applyWatermark_pagesToProcess (startPage cs) (endPage cs) (length pages) False)
      \<and> watermarkPage lib cs False font (prepareImage lib cs False) (pages ! i) = None
    \<longrightarrow> applyWatermark lib f cs False = None)
   \<and> (load lib f = Some pages \<and> embedFont lib ''Helvetica'' = Some font
      \<and> int i \<in> set (numbered_pages (fromPage ns) (toPage ns) (length pages) False)
      \<and> numberPage lib ns font (length pages) (applyPageNumbers_startIdx (fromPage ns)) i
            (pages ! i) = None
    \<longrightarrow> applyPageNumbers lib f ns False = None)
   \<and> (load lib f = Some pages \<and> embedFont lib ''Helvetica-Bold'' = Some font
      \<and> length pages' = length pages
      \<and> (\<forall>i < length pages.
           if i \<in> set (applyWatermark_pagesToProcess (startPage cs) (endPage cs) (length pages) False)
           then watermarkPage lib cs False font (prepareImage lib cs False) (pages ! i)
                  = Some (pages' ! i)
           else pages' ! i = pages ! i)
    \<longrightarrow> applyWatermark lib f cs False = save lib pages')
   \<and> (load lib f = Some pages \<and> embedFont lib ''Helvetica'' = Some font
      \<and> length pages' = length pages
      \<and> (\<forall>i < length pages.
           if int i \<in> set (numbered_pages (fromPage ns) (toPage ns) (length pages) False)
           then numberPage lib ns font (length pages)
                  (applyPageNumbers_startIdx (fromPage ns)) i (pages ! i) = Some (pages' ! i)
           else pages' ! i = pages ! i)
    \<longrightarrow> applyPageNumbers lib f ns False = save lib pages')
   \<and> (embedPng lib b = None \<and> embedJpg lib b = None \<longrightarrow>
      embedImage lib t b = None
    \<and> (wtype cs = Image \<and> imageFile cs = Some (t, b) \<and> layer cs = Over
         \<and> load lib f = Some pages \<and> embedFont lib ''Helvetica-Bold'' = Some font
       \<longrightarrow> applyWatermark lib f cs False = save lib pages))
   \<and> (Contents_throws lib page \<longrightarrow> layerUnder lib page = page)"
proof -
  have l: "load lib f = None \<longrightarrow>
        applyWatermark lib f cs pv = None \<and> applyPageNumbers lib f ns pv = None"
    by (simp add: applyWatermark_def applyPageNumbers_def)
  show ?thesis
    by (intro conjI; (rule applyWatermark_Some_iff applyPageNumbers_Some_iff l
        apply_font_fails [THEN conjunct1] apply_font_fails [THEN conjunct2] watermarkPage_None_iff numberPage_None_iff applyWatermark_page_fails applyPageNumbers_page_fails applyWatermark_saves applyPageNumbers_saves embed_failure_swallowed layerUnder_throws)?)
qed


theorem apply_all_or_nothing_witness:
  "applyWatermark reflib (Pdf [example_page 600 800 (PDFArray [Original 0])]) defaultSettings False
     = Some (Pdf [example_page 600 800 (PDFArray [Original 0,
         Drawn [DrawText ''CONFIDENTIAL'' 156 376 48 (Hex ''#FF0000'') (Some 0.5) (Some (- 45))]])])
   \<and> applyWatermark reflib NotAPdf defaultSettings False = None
   \<and> applyPageNumbers reflib NotAPdf defaultNumberSettings False = None
   \<and> applyWatermark (reflib\<lparr>draw := \<lambda>d page. None\<rparr>)
        (Pdf [example_page 600 800 (PDFArray [Original 0])]) defaultSettings False = None"
proof -
  let ?lib = "reflib\<lparr>draw := \<lambda>d page. None\<rparr>"
  let ?pages = "[example_page 600 800 (PDFArray [Original 0])]"
  have 1: "load reflib NotAPdf = None" by (simp add: reflib_def)
  have 2: "load ?lib (Pdf ?pages) = Some ?pages
      \<and> embedFont ?lib ''Helvetica-Bold'' = Some ref_font
      \<and> 0 \<in> set (applyWatermark_pagesToProcess (startPage defaultSettings)
                     (endPage defaultSettings) (length ?pages) False)
      \<and> watermarkPage ?lib defaultSettings False ref_font
            (prepareImage ?lib defaultSettings False) (?pages ! 0) = None"
    by (simp add: applyWatermark_def reflib_def defaultSettings_def example_page_def
      applyWatermark_pagesToProcess_def targetIndices_eq applyWatermark_startIdx_def
      applyWatermark_endIdx_def prepareImage_def embedImage_def watermarkPage_def getSize_def
      ref_font_def text_placements_def anchor_xy_eq ref_draw_def append_draw_def Let_def
      layerUnder_def array_remove_def array_insert_def)
  have a: "applyWatermark reflib NotAPdf defaultSettings False = None
      \<and> applyPageNumbers reflib NotAPdf defaultNumberSettings False = None"
    using apply_all_or_nothing [where lib = reflib and f = NotAPdf and cs = defaultSettings
      and ns = defaultNumberSettings and pv = False, THEN conjunct2, THEN conjunct2,
      THEN conjunct1] 1 by blast
  have b: "applyWatermark ?lib (Pdf ?pages) defaultSettings False = None"
    using apply_all_or_nothing [where lib = ?lib and f = "Pdf ?pages" and cs = defaultSettings
      and pages = ?pages and font = ref_font and i = 0, THEN conjunct2, THEN conjunct2,
      THEN conjunct2, THEN conjunct2, THEN conjunct2, THEN conjunct2, THEN conjunct1]
      2 by blast
  have c: "applyWatermark reflib (Pdf ?pages) defaultSettings False
     = Some (Pdf [example_page 600 800 (PDFArray [Original 0,
         Drawn [DrawText ''CONFIDENTIAL'' 156 376 48 (Hex ''#FF0000'') (Some 0.5) (Some (- 45))]])])"
    by (simp add: applyWatermark_def reflib_def defaultSettings_def example_page_def
      applyWatermark_pagesToProcess_def targetIndices_eq applyWatermark_startIdx_def
      applyWatermark_endIdx_def prepareImage_def embedImage_def watermarkPage_def getSize_def
      ref_font_def text_placements_def anchor_xy_eq ref_draw_def append_draw_def Let_def
      layerUnder_def array_remove_def array_insert_def)
  from a b c show ?thesis by blast
qed

text \<open>
  C8 as stated fails. With an image file that is neither a PNG nor a JPEG both
  embedding calls throw, and the apply returns the document, with no watermark on it.
\<close>

theorem apply_swallowed_errors_counterexample:
  "embedPng reflib NotAPdf = None \<and> embedJpg reflib NotAPdf = None
   \<and> applyWatermark reflib (Pdf [example_page 600 800 (PDFStream (Original 0))])
        (defaultSettings\<lparr>wtype := Image, imageFile := Some (''image/png'', NotAPdf)\<rparr>) False
     = Some (Pdf [example_page 600 800 (PDFStream (Original 0))])"
  by (simp add: applyWatermark_def reflib_def defaultSettings_def example_page_def
      applyWatermark_pagesToProcess_def targetIndices_eq applyWatermark_startIdx_def
      applyWatermark_endIdx_def prepareImage_def embedImage_def watermarkPage_def getSize_def
      ref_font_def text_placements_def anchor_xy_eq ref_draw_def append_draw_def Let_def
      layerUnder_def array_remove_def array_insert_def)

end
